(* ===== verification/Prelude.thy ===== *)
theory Prelude
  imports Complex_Main "HOL-Library.Word"
begin

text \<open>
  Shared vocabulary of the development: the Python values both scripts handle
  (8-bit channels, pixel grids, Python floats, bounding boxes, exceptions),
  combinators for code that raises while it changes a state, OpenCV's swap of
  the red and blue channels, and the generic
  lemmas the component theories use through the collections declared here.
\<close>

named_theorems grid_simps "facts about rectangular pixel grids"
named_theorems exc_simps "evaluation rules of the exception-and-state combinators"

section \<open>Machine values\<close>

text \<open>
  A numpy \<open>uint8\<close> is an \<open>8 word\<close>; an RGB or BGR pixel is a triple of them, in
  the channel order of the array it is read from. A 2-D numpy array is a list of
  rows (\<open>shape[0]\<close> is the number of rows, \<open>shape[1]\<close> the length of a row).
\<close>

type_synonym u8 = "8 word"
type_synonym rgb = "u8 \<times> u8 \<times> u8"
type_synonym 'a grid = "'a list list"

definition grid_height :: "'a grid \<Rightarrow> nat" where
  "grid_height g = length g"

definition grid_width :: "'a grid \<Rightarrow> nat" where
  "grid_width g = (case g of [] \<Rightarrow> 0 | r # _ \<Rightarrow> length r)"

text \<open>A grid is the list form of an \<open>h \<times> w\<close> array when every row has \<open>w\<close> cells.\<close>

definition rect :: "nat \<Rightarrow> nat \<Rightarrow> 'a grid \<Rightarrow> bool" where
  "rect h w g \<longleftrightarrow> length g = h \<and> list_all (\<lambda>r. length r = w) g"

definition grid_map :: "('a \<Rightarrow> 'b) \<Rightarrow> 'a grid \<Rightarrow> 'b grid" where
  "grid_map f g = map (map f) g"

text \<open>Element-wise combination of two grids of one shape (numpy broadcasting of equal shapes).\<close>

definition grid_zip :: "('a \<Rightarrow> 'b \<Rightarrow> 'c) \<Rightarrow> 'a grid \<Rightarrow> 'b grid \<Rightarrow> 'c grid" where
  "grid_zip f g m = map2 (map2 f) g m"

text \<open>Two grids have the same shape: the check numpy's boolean indexing makes.\<close>

definition same_shape :: "'a grid \<Rightarrow> 'b grid \<Rightarrow> bool" where
  "same_shape g m \<longleftrightarrow> list_all2 (\<lambda>r s. length r = length s) g m"

text \<open>\<open>mask.sum()\<close> of a boolean array: the number of \<open>True\<close> cells.\<close>

definition count_true :: "bool grid \<Rightarrow> nat" where
  "count_true m = sum_list (map (\<lambda>r. length (filter id r)) m)"

section \<open>Python floats\<close>

text \<open>
  A Python \<open>float\<close> parsed from a decimal string: a finite value (kept exactly as
  the rational the string denotes), an infinity or NaN. Comparisons follow IEEE
  754: every comparison with NaN is false.
\<close>

datatype pyfloat = Fin rat | PosInf | NegInf | NaN

fun flt_lt :: "pyfloat \<Rightarrow> pyfloat \<Rightarrow> bool" where
  "flt_lt NaN y = False"
| "flt_lt x NaN = False"
| "flt_lt (Fin a) (Fin b) = (a < b)"
| "flt_lt NegInf y = (y \<noteq> NegInf)"
| "flt_lt x NegInf = False"
| "flt_lt PosInf y = False"
| "flt_lt x PosInf = True"

text \<open>A bounding box as \<open>read_labels_from_xml\<close> builds it: \<open>[xmin, ymin, xmax, ymax]\<close>.\<close>

datatype box = Box (bx_xmin: pyfloat) (bx_ymin: pyfloat) (bx_xmax: pyfloat) (bx_ymax: pyfloat)

section \<open>Paths and standard output\<close>

text \<open>
  A path is the list of its components: \<open>os.path.join(d, name)\<close> with a plain
  file name is \<open>d @ [name]\<close>, as on POSIX.
\<close>

type_synonym path = "string list"

section \<open>Exceptions\<close>

text \<open>
  The exceptions the scripts raise or catch. \<open>PredictorError\<close> stands for any
  exception raised inside the segmentation model.
\<close>

datatype py_error =
    FileNotFoundError
  | FileExistsError
  | NotADirectoryError
  | IsADirectoryError
  | UnidentifiedImageError
  | ParseError
  | AttributeError
  | TypeError
  | ValueError
  | IndexError
  | PredictorError

text \<open>
  What the SAM script prints, one constructor per \<open>print\<close> call of
  \<^verbatim>\<open>src/sam_segmentation_with_bounding_boxes.py\<close>; the message text itself
  is not modelled.
\<close>

datatype msg =
    XmlError path py_error
  | InvalidBoxSkipped box
  | NoMaskFound box
  | SegmentationError box py_error
  | ResultSaved path
  | LabelFileNotFound path
  | FileError string py_error
  | AllProcessed
  | GeneralError py_error

text \<open>
  Code that may raise while it changes a state \<open>'w\<close>: a Python exception leaves
  the effects made before it in place, so the state is returned on both paths.
\<close>

type_synonym ('w, 'a) exc = "'w \<Rightarrow> (py_error + 'a) \<times> 'w"

definition ret :: "'a \<Rightarrow> ('w, 'a) exc" where
  "ret a w = (Inr a, w)"

definition raise :: "py_error \<Rightarrow> ('w, 'a) exc" where
  "raise e w = (Inl e, w)"

definition bindE :: "('w, 'a) exc \<Rightarrow> ('a \<Rightarrow> ('w, 'b) exc) \<Rightarrow> ('w, 'b) exc" where
  "bindE m f w = (case m w of (Inl e, w') \<Rightarrow> (Inl e, w') | (Inr a, w') \<Rightarrow> f a w')"

text \<open>\<open>try: m except Exception as e: h e\<close>.\<close>

definition catchE :: "('w, 'a) exc \<Rightarrow> (py_error \<Rightarrow> ('w, 'a) exc) \<Rightarrow> ('w, 'a) exc" where
  "catchE m h w = (case m w of (Inl e, w') \<Rightarrow> h e w' | (Inr a, w') \<Rightarrow> (Inr a, w'))"

text \<open>Reading the state.\<close>

definition gets :: "('w \<Rightarrow> 'a) \<Rightarrow> ('w, 'a) exc" where
  "gets f w = (Inr (f w), w)"

text \<open>A state change that cannot raise.\<close>

definition modify :: "('w \<Rightarrow> 'w) \<Rightarrow> ('w, unit) exc" where
  "modify f w = (Inr (), f w)"

text \<open>\<open>for x in xs: body(x)\<close>: the first exception ends the loop.\<close>

fun forE :: "('a \<Rightarrow> ('w, unit) exc) \<Rightarrow> 'a list \<Rightarrow> ('w, unit) exc" where
  "forE f [] = ret ()"
| "forE f (x # xs) = bindE (f x) (\<lambda>_. forE f xs)"

section \<open>Colour order\<close>

text \<open>
  \<open>cv2.cvtColor\<close> with \<open>COLOR_BGR2RGB\<close> and with \<open>COLOR_RGB2BGR\<close> both exchange
  the first and the third channel of every pixel.
\<close>

definition swap_rb :: "rgb \<Rightarrow> rgb" where
  "swap_rb p = (case p of (a, g, b) \<Rightarrow> (b, g, a))"

definition cvt_color :: "rgb grid \<Rightarrow> rgb grid" where
  "cvt_color img = grid_map swap_rb img"

section \<open>Lemmas\<close>

lemma ret_bindE [simp, exc_simps]: "bindE (ret a) f = f a"
  by (simp add: fun_eq_iff bindE_def ret_def)

lemma raise_bindE [simp, exc_simps]: "bindE (raise e) f = raise e"
  by (simp add: fun_eq_iff bindE_def raise_def)

lemma bindE_apply [exc_simps]:
  "bindE m f w = (case m w of (Inl e, w') \<Rightarrow> (Inl e, w') | (Inr a, w') \<Rightarrow> f a w')"
  by (simp add: bindE_def)

lemma bindE_Inr [simp]: "m w = (Inr a, w') \<Longrightarrow> bindE m f w = f a w'"
  by (simp add: bindE_def)

lemma bindE_Inl [simp]: "m w = (Inl e, w') \<Longrightarrow> bindE m f w = (Inl e, w')"
  by (simp add: bindE_def)

lemma catchE_Inr [simp]: "m w = (Inr a, w') \<Longrightarrow> catchE m h w = (Inr a, w')"
  by (simp add: catchE_def)

lemma catchE_Inl [simp]: "m w = (Inl e, w') \<Longrightarrow> catchE m h w = h e w'"
  by (simp add: catchE_def)

lemma modify_apply [simp, exc_simps]: "modify f w = (Inr (), f w)"
  by (simp add: modify_def)

lemma gets_apply [simp, exc_simps]: "gets f w = (Inr (f w), w)"
  by (simp add: gets_def)

lemma ret_apply [simp, exc_simps]: "ret a w = (Inr a, w)"
  by (simp add: ret_def)

lemma raise_apply [simp, exc_simps]: "raise e w = (Inl e, w)"
  by (simp add: raise_def)

lemma forE_append: "forE f (xs @ ys) = bindE (forE f xs) (\<lambda>_. forE f ys)"
  by (induction xs) (simp_all add: fun_eq_iff bindE_def split: prod.splits sum.splits)

text \<open>A loop whose body never raises runs as a fold of the body's state change.\<close>

lemma forE_modify:
  "(\<And>x. f x = modify (g x)) \<Longrightarrow> forE f xs w = (Inr (), fold g xs w)"
  by (induction xs arbitrary: w) (simp_all add: bindE_def)

lemma rect_Cons [grid_simps]: "rect h w (r # g) \<longleftrightarrow> h = Suc (length g) \<and> length r = w \<and> rect (length g) w g"
  by (auto simp add: rect_def)

lemma rect_Nil [grid_simps]: "rect h w [] \<longleftrightarrow> h = 0"
  by (auto simp add: rect_def)

lemma rect_nth_length [grid_simps]: "rect h w g \<Longrightarrow> i < h \<Longrightarrow> length (g ! i) = w"
  by (auto simp add: rect_def list_all_length)

lemma rect_shape [grid_simps]:
  "rect h w g \<Longrightarrow> 0 < h \<Longrightarrow> grid_height g = h \<and> grid_width g = w"
  by (cases g) (auto simp add: rect_def grid_height_def grid_width_def)

lemma rect_grid_map [grid_simps]: "rect h w (grid_map f g) \<longleftrightarrow> rect h w g"
  by (simp add: rect_def grid_map_def list_all_iff)

lemma grid_map_comp [grid_simps]: "grid_map f (grid_map g x) = grid_map (f \<circ> g) x"
  by (simp add: grid_map_def)

lemma grid_map_ident [grid_simps]: "(\<And>x. f x = x) \<Longrightarrow> grid_map f g = g"
  by (simp add: grid_map_def map_idI)

lemma same_shape_rect [grid_simps]:
  "rect h w g \<Longrightarrow> same_shape g m \<longleftrightarrow> rect h w m"
  by (auto simp add: rect_def same_shape_def list_all2_conv_all_nth list_all_length)

lemma same_shape_sym: "same_shape g m \<Longrightarrow> same_shape m g"
  by (simp add: same_shape_def list_all2_conv_all_nth)

lemma grid_zip_nth [grid_simps]:
  assumes "same_shape g m" and "i < length g" and "j < length (g ! i)"
  shows "grid_zip f g m ! i ! j = f (g ! i ! j) (m ! i ! j)"
  using assms by (simp add: grid_zip_def same_shape_def list_all2_conv_all_nth)

lemma grid_zip_shape [grid_simps]:
  "same_shape g m \<Longrightarrow> same_shape (grid_zip f g m) g"
  by (simp add: grid_zip_def same_shape_def list_all2_conv_all_nth)

lemma grid_zip_ident [grid_simps]:
  assumes "same_shape g m"
    and "\<And>i j. i < length g \<Longrightarrow> j < length (g ! i) \<Longrightarrow> f (g ! i ! j) (m ! i ! j) = g ! i ! j"
  shows "grid_zip f g m = g"
proof -
  from assms(1) have "length g = length m" and "\<forall>i<length g. length (g ! i) = length (m ! i)"
    by (simp_all add: same_shape_def list_all2_conv_all_nth)
  with assms show ?thesis
    by (auto simp add: grid_zip_def intro!: nth_equalityI)
qed

lemma map2_map_left: "map2 f (map h a) b = map2 (\<lambda>p. f (h p)) a b"
  by (simp add: zip_map1 case_prod_beta)

lemma grid_map_grid_zip [grid_simps]:
  "grid_map h (grid_zip f g m) = grid_zip (\<lambda>p b. h (f p b)) g m"
  unfolding grid_map_def grid_zip_def
  by (induction g arbitrary: m) (auto split: list.splits)

lemma grid_zip_grid_map [grid_simps]:
  "grid_zip f (grid_map h g) m = grid_zip (\<lambda>p b. f (h p) b) g m"
  unfolding grid_map_def grid_zip_def by (simp add: map2_map_left)

lemma count_true_zero_nth [grid_simps]:
  "count_true m = 0 \<Longrightarrow> i < length m \<Longrightarrow> j < length (m ! i) \<Longrightarrow> \<not> m ! i ! j"
  by (auto simp add: count_true_def filter_empty_conv) (metis nth_mem)

lemma unat_u8_less [simp]: "unat (x::u8) < 256"
  using unsigned_less [of x, where ?'a = nat] by simp

lemma count_true_zero [grid_simps]: "count_true m = 0 \<longleftrightarrow> (\<forall>r\<in>set m. \<not> (True \<in> set r))"
  by (auto simp add: count_true_def filter_empty_conv)

section \<open>Arithmetic, lists and finite sets\<close>

lemma div_of_minus_mod: "(t - t mod h) div h = t div (h::nat)"
  by (cases "h = 0") (simp_all add: minus_mod_eq_mult_div)

lemma suc_div_mod_cases:
  assumes "0 < (h::nat)"
  obtains (wrap) "Suc e mod h = 0" "Suc e div h = Suc (e div h)" "e mod h = h - 1"
    | (col) "Suc e mod h = Suc (e mod h)" "Suc e div h = e div h"
proof (cases "Suc (e mod h) = h")
  case True
  then have m: "Suc e mod h = 0" unfolding mod_Suc by simp
  then have "Suc e div h = Suc (e div h)" unfolding div_Suc by simp
  with m True show ?thesis by (intro wrap) simp_all
next
  case False
  then have m: "Suc e mod h = Suc (e mod h)" unfolding mod_Suc by simp
  then have "Suc e div h = e div h" unfolding div_Suc by simp
  with m show ?thesis by (intro col)
qed

lemma same_col_mod_le: "(s::nat) \<le> e \<Longrightarrow> s div h = e div h \<Longrightarrow> s mod h \<le> e mod h"
  by (metis add_le_cancel_left div_mult_mod_eq)

lemma set_tl_subset: "set (tl xs) \<subseteq> set xs"
  by (cases xs) auto

lemma Min_insert_above: "finite A \<Longrightarrow> A \<noteq> {} \<Longrightarrow> \<forall>x\<in>A. x < (w::nat) \<Longrightarrow> Min (insert w A) = Min A"
  by (simp add: min_def) (meson Min_in less_imp_le not_less)

lemma Max_insert_0: "finite A \<Longrightarrow> A \<noteq> {} \<Longrightarrow> Max (insert (0::nat) A) = Max A"
  by (simp add: max_def)

lemma rect_grid_map_nth [grid_simps]:
  "rect h w g \<Longrightarrow> r < h \<Longrightarrow> c < w \<Longrightarrow> grid_map f g ! r ! c = f (g ! r ! c)"
  using rect_nth_length [of h w g r] by (simp add: grid_map_def rect_def)

lemma rect_all_cells:
  "rect h w g \<Longrightarrow> (\<forall>row\<in>set g. \<forall>x\<in>set row. P x) \<longleftrightarrow> (\<forall>r<h. \<forall>c<w. P (g ! r ! c))"
proof -
  assume R: "rect h w g"
  then have "length g = h" and "\<And>r. r < h \<Longrightarrow> length (g ! r) = w"
    by (simp_all add: rect_def rect_nth_length)
  then show ?thesis by (simp add: all_set_conv_all_nth)
qed

lemma Min_Max_atLeastLessThan:
  "0 < n \<Longrightarrow> Min {x..<x + n} = (x::nat) \<and> Max {x..<x + n} = x + n - 1"
  by (auto intro!: Min_eqI Max_eqI)

lemma swap_rb_swap_rb [simp]: "swap_rb (swap_rb p) = p"
  by (cases p) (auto simp add: swap_rb_def)

lemma cvt_color_cvt_color [simp]: "cvt_color (cvt_color img) = img"
  by (simp add: cvt_color_def grid_map_comp grid_map_ident)

lemma cvt_color_shape [simp]:
  "grid_height (cvt_color img) = grid_height img" "grid_width (cvt_color img) = grid_width img"
  by (simp_all add: cvt_color_def grid_map_def grid_height_def grid_width_def split: list.splits)

end
