(* ===== verification/Overlay.thy ===== *)
theory Overlay
  imports Prelude
begin

text \<open>
  The per-image core of \<^verbatim>\<open>src/sam_segmentation_with_bounding_boxes.py\<close>:
  \<open>load_image\<close> (lines 16-22) and the loop of
  \<open>segment_with_boxes\<close> (lines 45-79) that checks each bounding box, asks the
  segmentation model for a mask and blends a random colour into the overlay.
  The model itself is the parameter \<open>predict\<close>; the random colours are the
  stream \<open>color\<close>, indexed by the number of colours drawn so far.
\<close>

section \<open>Loading an image\<close>

text \<open>
  \<open>load_image\<close>: \<open>cv2.imread\<close> gives \<open>None\<close> for a file it cannot read (the argument
  here), which the function turns into \<open>FileNotFoundError\<close>; otherwise the BGR
  array is converted to RGB.
\<close>

definition load_image :: "rgb grid option \<Rightarrow> py_error + rgb grid" where
  "load_image r = (case r of None \<Rightarrow> Inl FileNotFoundError | Some img \<Rightarrow> Inr (cvt_color img))"

section \<open>Blending\<close>

text \<open>
  \<open>overlay[mask] = overlay[mask] * 0.5 + color * 0.5\<close>: both products are
  \<open>float64\<close> (exact, as halves of integers below 256), their sum is exact, and the
  assignment into the \<open>uint8\<close> array truncates it.
\<close>

definition blend_ch :: "u8 \<Rightarrow> u8 \<Rightarrow> u8" where
  "blend_ch x c = word_of_nat (nat \<lfloor>of_nat (unat x) * (1 / 2) + of_nat (unat c) * (1 / 2) :: rat\<rfloor>)"

definition blend_px :: "rgb \<Rightarrow> rgb \<Rightarrow> rgb" where
  "blend_px p c = (case p of (p0, p1, p2) \<Rightarrow> case c of (c0, c1, c2) \<Rightarrow>
     (blend_ch p0 c0, blend_ch p1 c1, blend_ch p2 c2))"

text \<open>The assignment through the boolean index: masked pixels blended, the others kept.\<close>

definition apply_mask :: "rgb grid \<Rightarrow> bool grid \<Rightarrow> rgb \<Rightarrow> rgb grid" where
  "apply_mask ov m c = grid_zip (\<lambda>p b. if b then blend_px p c else p) ov m"

text \<open>
  The exact arithmetic the blend stands for, on pixels read as natural numbers
  (\<open>px_nat\<close>, numpy's \<open>astype(int)\<close>): the mean of pixel and colour
  rounded down, per channel, on the masked cells.
\<close>

definition px_nat :: "rgb \<Rightarrow> nat \<times> nat \<times> nat" where
  "px_nat p = (case p of (a, g, b) \<Rightarrow> (unat a, unat g, unat b))"

definition mean_px :: "nat \<times> nat \<times> nat \<Rightarrow> nat \<times> nat \<times> nat \<Rightarrow> nat \<times> nat \<times> nat" where
  "mean_px p c = (case p of (p0, p1, p2) \<Rightarrow> case c of (c0, c1, c2) \<Rightarrow>
     ((p0 + c0) div 2, (p1 + c1) div 2, (p2 + c2) div 2))"

definition apply_mask_spec ::
  "(nat \<times> nat \<times> nat) grid \<Rightarrow> bool grid \<Rightarrow> nat \<times> nat \<times> nat \<Rightarrow> (nat \<times> nat \<times> nat) grid" where
  "apply_mask_spec g m c = grid_zip (\<lambda>p b. if b then mean_px p c else p) g m"

section \<open>The loop over the boxes\<close>

text \<open>
  Line 57: a box is skipped when \<open>box[0] < 0 or box[1] < 0 or box[2] > image.shape[1]
  or box[3] > image.shape[0]\<close>, \<open>shape[1]\<close> being the width \<open>w\<close> and \<open>shape[0]\<close>
  the height \<open>h\<close>.
\<close>

definition box_invalid :: "nat \<Rightarrow> nat \<Rightarrow> box \<Rightarrow> bool" where
  "box_invalid h w b \<longleftrightarrow>
     flt_lt (bx_xmin b) (Fin 0) \<or> flt_lt (bx_ymin b) (Fin 0) \<or>
     flt_lt (Fin (of_nat w)) (bx_xmax b) \<or> flt_lt (Fin (of_nat h)) (bx_ymax b)"

text \<open>
  The segmentation model: \<open>sam_predictor.set_image(image)\<close> followed by
  \<open>sam_predictor.predict(box=box, multimask_output=False)\<close> and \<open>masks[0]\<close>,
  which returns one boolean mask or raises.
\<close>

type_synonym predictor = "rgb grid \<Rightarrow> box \<Rightarrow> py_error + bool grid"

text \<open>
  The state the loop changes: the overlay (a local copy of the image), the
  position in the stream of \<open>np.random\<close> (the colours drawn so far) and what the
  loop printed.
\<close>

record seg_state =
  ov :: "rgb grid"
  draws :: nat
  seg_log :: "msg list"

text \<open>
  One iteration of lines 51-79. Every exception inside the \<open>try\<close> is caught and
  printed: the model's own, and the \<open>IndexError\<close> of a boolean index whose shape
  differs from the overlay's. The colour is drawn before the assignment, so a
  failing assignment still advances the random stream.
\<close>

definition seg_box :: "(box \<Rightarrow> py_error + bool grid) \<Rightarrow> (nat \<Rightarrow> rgb) \<Rightarrow> nat \<Rightarrow> nat \<Rightarrow>
    seg_state \<Rightarrow> box \<Rightarrow> seg_state" where
  "seg_box predict color h w s b =
     (if box_invalid h w b then s\<lparr>seg_log := seg_log s @ [InvalidBoxSkipped b]\<rparr>
      else (case predict b of
        Inl e \<Rightarrow> s\<lparr>seg_log := seg_log s @ [SegmentationError b e]\<rparr>
      | Inr m \<Rightarrow>
          if count_true m = 0 then s\<lparr>seg_log := seg_log s @ [NoMaskFound b]\<rparr>
          else (let c = color (draws s); s' = s\<lparr>draws := Suc (draws s)\<rparr> in
                if same_shape (ov s) m then s'\<lparr>ov := apply_mask (ov s) m c\<rparr>
                else s'\<lparr>seg_log := seg_log s @ [SegmentationError b IndexError]\<rparr>)))"

fun seg_loop :: "(box \<Rightarrow> py_error + bool grid) \<Rightarrow> (nat \<Rightarrow> rgb) \<Rightarrow> nat \<Rightarrow> nat \<Rightarrow>
    seg_state \<Rightarrow> box list \<Rightarrow> seg_state" where
  "seg_loop predict color h w s [] = s"
| "seg_loop predict color h w s (b # bs) = seg_loop predict color h w (seg_box predict color h w s b) bs"

text \<open>
  Lines 47-79 on an image that \<open>load_image\<close> returned: the overlay starts as a
  copy of the image, the model is set to the image, and the loop runs over the
  boxes from random-stream position \<open>k\<close>.
\<close>

definition segment_core :: "predictor \<Rightarrow> (nat \<Rightarrow> rgb) \<Rightarrow> rgb grid \<Rightarrow> box list \<Rightarrow> nat \<Rightarrow> seg_state" where
  "segment_core sam color img bs k =
     seg_loop (sam img) color (grid_height img) (grid_width img) \<lparr>ov = img, draws = k, seg_log = []\<rparr> bs"

section \<open>Lemmas\<close>

lemma blend_ch_unat: "unat (blend_ch x c) = (unat x + unat c) div 2"
proof -
  have "of_nat (unat x) * (1 / 2) + of_nat (unat c) * (1 / 2) = (of_nat (unat x + unat c) / of_nat 2 :: rat)"
    by (simp add: field_simps)
  then have fl: "nat \<lfloor>of_nat (unat x) * (1 / 2) + of_nat (unat c) * (1 / 2) :: rat\<rfloor> = (unat x + unat c) div 2"
    by (simp only: floor_divide_of_nat_eq nat_int)
  have "unat x < 256" and "unat c < 256" by simp_all
  then have "(unat x + unat c) div 2 < 256" by arith
  moreover have "unat (blend_ch x c) = ((unat x + unat c) div 2) mod 256"
    unfolding blend_ch_def fl by (simp add: unat_of_nat)
  ultimately show ?thesis by simp
qed

lemma blend_px_unat:
  "blend_px (p0, p1, p2) (c0, c1, c2) = (q0, q1, q2) \<Longrightarrow>
   unat q0 = (unat p0 + unat c0) div 2 \<and> unat q1 = (unat p1 + unat c1) div 2 \<and>
   unat q2 = (unat p2 + unat c2) div 2"
  by (auto simp add: blend_px_def blend_ch_unat)

lemma px_nat_blend_px: "px_nat (blend_px p c) = mean_px (px_nat p) (px_nat c)"
  by (cases p; cases c) (simp add: px_nat_def mean_px_def blend_px_def blend_ch_unat)

lemma apply_mask_nth:
  assumes "same_shape g m" and "i < length g" and "j < length (g ! i)"
  shows "apply_mask g m c ! i ! j = (if m ! i ! j then blend_px (g ! i ! j) c else g ! i ! j)"
  using assms by (simp add: apply_mask_def grid_zip_nth)

lemma apply_mask_shape: "same_shape g m \<Longrightarrow> same_shape (apply_mask g m c) g"
  by (simp add: apply_mask_def grid_zip_shape)

lemma apply_mask_rect: "rect h w g \<Longrightarrow> same_shape g m \<Longrightarrow> rect h w (apply_mask g m c)"
  using apply_mask_shape [of g m c] same_shape_rect same_shape_sym by blast

lemma apply_mask_no_true:
  assumes "same_shape g m" and "count_true m = 0"
  shows "apply_mask g m c = g"
  unfolding apply_mask_def
proof (rule grid_zip_ident [OF assms(1)])
  fix i j
  assume "i < length g" and "j < length (g ! i)"
  with assms(1) have "i < length m" and "j < length (m ! i)"
    by (auto simp add: same_shape_def list_all2_conv_all_nth)
  with assms(2) show "(if m ! i ! j then blend_px (g ! i ! j) c else g ! i ! j) = g ! i ! j"
    by (simp add: count_true_zero_nth)
qed

lemmas seg_box_splits = sum.splits if_splits

lemma seg_box_ov_cases:
  "ov (seg_box predict color h w s b) = ov s \<or>
   (\<exists>m. predict b = Inr m \<and> \<not> box_invalid h w b \<and> count_true m \<noteq> 0 \<and> same_shape (ov s) m \<and>
        ov (seg_box predict color h w s b) = apply_mask (ov s) m (color (draws s)))"
  by (auto simp add: seg_box_def Let_def split: seg_box_splits)

text \<open>What the loop keeps of a state does not depend on what was printed before.\<close>

lemma seg_box_ov_draws_cong:
  assumes "ov s = ov t" and "draws s = draws t"
  shows "ov (seg_box predict color h w s b) = ov (seg_box predict color h w t b) \<and>
         draws (seg_box predict color h w s b) = draws (seg_box predict color h w t b)"
  using assms by (cases "predict b") (simp_all add: seg_box_def Let_def)

lemma seg_loop_ov_draws_cong:
  assumes "ov s = ov t" and "draws s = draws t"
  shows "ov (seg_loop predict color h w s bs) = ov (seg_loop predict color h w t bs) \<and>
         draws (seg_loop predict color h w s bs) = draws (seg_loop predict color h w t bs)"
  using assms
proof (induction bs arbitrary: s t)
  case Nil
  then show ?case by simp
next
  case (Cons b bs)
  have "ov (seg_box predict color h w s b) = ov (seg_box predict color h w t b)"
    and "draws (seg_box predict color h w s b) = draws (seg_box predict color h w t b)"
    using seg_box_ov_draws_cong [OF Cons.prems] by blast+
  from Cons.IH [OF this] show ?case by simp
qed

lemma seg_loop_append:
  "seg_loop predict color h w s (xs @ ys) = seg_loop predict color h w (seg_loop predict color h w s xs) ys"
  by (induction xs arbitrary: s) simp_all

lemma seg_box_keeps_ov:
  assumes "box_invalid h w b \<or> (\<exists>e. predict b = Inl e) \<or> (\<exists>m. predict b = Inr m \<and> count_true m = 0)"
  shows "ov (seg_box predict color h w s b) = ov s"
  using assms by (cases "predict b") (auto simp add: seg_box_def Let_def apply_mask_no_true)

lemma seg_box_rect:
  "rect h' w' (ov s) \<Longrightarrow> rect h' w' (ov (seg_box predict color h w s b))"
  unfolding seg_box_def Let_def by (auto intro: apply_mask_rect split: sum.splits)

text \<open>
  The decision of one box: the box passes the check and the model returns a
  non-empty mask, so that a colour is drawn.
\<close>

definition draws_color :: "(box \<Rightarrow> py_error + bool grid) \<Rightarrow> nat \<Rightarrow> nat \<Rightarrow> box \<Rightarrow> bool" where
  "draws_color predict h w b \<longleftrightarrow>
     \<not> box_invalid h w b \<and> (case predict b of Inl e \<Rightarrow> False | Inr m \<Rightarrow> count_true m \<noteq> 0)"

lemma seg_box_draws:
  "draws (seg_box predict color h w s b) = (if draws_color predict h w b then Suc (draws s) else draws s)"
  by (cases "predict b") (simp_all add: seg_box_def draws_color_def Let_def)

text \<open>
  A box that lies entirely outside the image: finite corners in the order
  \<open>xmin < xmax\<close>, \<open>ymin < ymax\<close>, and the rectangle beyond one edge of
  \<open>[0, w] \<times> [0, h]\<close>.
\<close>

definition box_outside :: "nat \<Rightarrow> nat \<Rightarrow> box \<Rightarrow> bool" where
  "box_outside h w b \<longleftrightarrow>
     (case b of Box (Fin x0) (Fin y0) (Fin x1) (Fin y1) \<Rightarrow>
        x0 < x1 \<and> y0 < y1 \<and> (x1 \<le> 0 \<or> of_nat w \<le> x0 \<or> y1 \<le> 0 \<or> of_nat h \<le> y0)
      | _ \<Rightarrow> False)"

lemma box_outside_invalid: "box_outside h w b \<Longrightarrow> box_invalid h w b"
  by (auto simp add: box_outside_def box_invalid_def split: box.splits pyfloat.splits)

section \<open>Properties of one box\<close>

text \<open>
  C6: a box that lies entirely outside the image is skipped: the overlay and the
  random stream are unchanged and the skip is printed.
\<close>

theorem seg_box_outside_skipped:
  assumes "box_outside h w b"
  shows "seg_box predict color h w s b = s\<lparr>seg_log := seg_log s @ [InvalidBoxSkipped b]\<rparr>"
  using box_outside_invalid [OF assms] by (simp add: seg_box_def)

theorem seg_box_outside_skipped_witness:
  "seg_box (\<lambda>_. Inr [[True]]) (\<lambda>_. (10, 20, 30)) 1 1 \<lparr>ov = [[(100, 50, 0)]], draws = 0, seg_log = []\<rparr>
      (Box (Fin 2) (Fin 0) (Fin 3) (Fin 1))
   = \<lparr>ov = [[(100, 50, 0)]], draws = 0, seg_log = [InvalidBoxSkipped (Box (Fin 2) (Fin 0) (Fin 3) (Fin 1))]\<rparr>"
proof -
  have "box_outside 1 1 (Box (Fin 2) (Fin 0) (Fin 3) (Fin 1))" by (simp add: box_outside_def)
  from seg_box_outside_skipped [OF this] show ?thesis by simp
qed

text \<open>
  C7: a box for which the model returns an empty mask leaves the overlay and the
  random stream as they were; only the message is printed.
\<close>

theorem seg_box_empty_mask:
  assumes "\<not> box_invalid h w b" and "predict b = Inr m" and "count_true m = 0"
  shows "seg_box predict color h w s b = s\<lparr>seg_log := seg_log s @ [NoMaskFound b]\<rparr>"
  using assms by (simp add: seg_box_def)

theorem seg_box_empty_mask_witness:
  "seg_box (\<lambda>_. Inr [[False]]) (\<lambda>_. (10, 20, 30)) 1 1 \<lparr>ov = [[(100, 50, 0)]], draws = 0, seg_log = []\<rparr>
      (Box (Fin 0) (Fin 0) (Fin 1) (Fin 1))
   = \<lparr>ov = [[(100, 50, 0)]], draws = 0, seg_log = [NoMaskFound (Box (Fin 0) (Fin 0) (Fin 1) (Fin 1))]\<rparr>"
  using seg_box_empty_mask [of 1 1 "Box (Fin 0) (Fin 0) (Fin 1) (Fin 1)" "\<lambda>_. Inr [[False]]" "[[False]]"]
  by (simp add: box_invalid_def count_true_def)

text \<open>
  C2: a box that passes the check and gets a non-empty mask of the image's shape
  blends the next colour of the random stream into exactly the masked pixels,
  every channel becoming the truncated mean of its old value and the colour's;
  the pixels outside the mask keep their value.
\<close>

theorem seg_box_blends_masked:
  assumes "\<not> box_invalid h w b" and "predict b = Inr m" and "count_true m \<noteq> 0"
    and "same_shape (ov s) m" and "i < length (ov s)" and "j < length (ov s ! i)"
  shows "ov (seg_box predict color h w s b) ! i ! j =
           (if m ! i ! j then blend_px (ov s ! i ! j) (color (draws s)) else ov s ! i ! j) \<and>
         draws (seg_box predict color h w s b) = Suc (draws s)"
  using assms by (simp add: seg_box_def Let_def apply_mask_nth)

theorem seg_box_blends_masked_witness:
  "ov (seg_box (\<lambda>_. Inr [[True, False]]) (\<lambda>_. (10, 20, 30)) 1 2
        \<lparr>ov = [[(100, 50, 0), (7, 7, 7)]], draws = 0, seg_log = []\<rparr> (Box (Fin 0) (Fin 0) (Fin 1) (Fin 1))) ! 0 ! 0
     = (55, 35, 15) \<and>
   ov (seg_box (\<lambda>_. Inr [[True, False]]) (\<lambda>_. (10, 20, 30)) 1 2
        \<lparr>ov = [[(100, 50, 0), (7, 7, 7)]], draws = 0, seg_log = []\<rparr> (Box (Fin 0) (Fin 0) (Fin 1) (Fin 1))) ! 0 ! 1
     = (7, 7, 7)"
proof -
  let ?s = "\<lparr>ov = [[(100, 50, 0), (7, 7, 7)]], draws = 0, seg_log = []\<rparr> :: seg_state"
  let ?p = "\<lambda>_::box. Inr [[True, False]] :: py_error + bool grid"
  let ?b = "Box (Fin 0) (Fin 0) (Fin 1) (Fin 1)"
  have h: "\<not> box_invalid 1 2 ?b" "count_true [[True, False]] \<noteq> 0" "same_shape (ov ?s) [[True, False]]"
    by (simp_all add: box_invalid_def count_true_def same_shape_def)
  have bl: "blend_px (100, 50, 0) (10, 20, 30) = (55, 35, 15)"
    by (simp add: blend_px_def blend_ch_def)
  have c0: "ov (seg_box ?p (\<lambda>_. (10, 20, 30)) 1 2 ?s ?b) ! 0 ! 0 = (55, 35, 15)"
    using seg_box_blends_masked [of 1 2 ?b ?p "[[True, False]]" ?s 0 0] h bl by simp
  have c1: "ov (seg_box ?p (\<lambda>_. (10, 20, 30)) 1 2 ?s ?b) ! 0 ! 1 = (7, 7, 7)"
    using seg_box_blends_masked [of 1 2 ?b ?p "[[True, False]]" ?s 0 1] h by simp
  from c0 c1 show ?thesis by simp
qed

text \<open>
  C8: the \<open>uint8\<close> assignment through the boolean index refines the exact
  blend: read as natural numbers, the overlay after line 76 is the grid whose
  masked cells are the rounded-down mean of pixel and colour and whose other
  cells are the old pixels.
\<close>

theorem apply_mask_refines:
  "grid_map px_nat (apply_mask g m c) = apply_mask_spec (grid_map px_nat g) m (px_nat c)"
  unfolding apply_mask_def apply_mask_spec_def grid_map_grid_zip grid_zip_grid_map
  by (simp only: px_nat_blend_px if_distrib)

section \<open>Properties of the loop\<close>

lemma seg_loop_keeps_ov:
  assumes "\<forall>b\<in>set bs. box_invalid h w b \<or> (\<exists>e. predict b = Inl e) \<or> (\<exists>m. predict b = Inr m \<and> count_true m = 0)"
  shows "ov (seg_loop predict color h w s bs) = ov s"
  using assms by (induction bs arbitrary: s) (simp_all add: seg_box_keeps_ov)

lemma seg_loop_rect:
  assumes "rect h' w' (ov s)"
  shows "rect h' w' (ov (seg_loop predict color h w s bs))"
  using assms by (induction bs arbitrary: s) (simp_all add: seg_box_rect)

text \<open>
  C10: an exception raised by the model for one box is caught and only printed:
  the overlay and the random stream at the end of the loop are those of the same
  loop without that box.
\<close>

theorem seg_loop_error_isolated:
  assumes "predict b = Inl e"
  shows "ov (seg_loop predict color h w s (xs @ b # ys)) = ov (seg_loop predict color h w s (xs @ ys)) \<and>
         draws (seg_loop predict color h w s (xs @ b # ys)) = draws (seg_loop predict color h w s (xs @ ys))"
proof -
  let ?t = "seg_loop predict color h w s xs"
  have "ov (seg_box predict color h w ?t b) = ov ?t" and "draws (seg_box predict color h w ?t b) = draws ?t"
    using assms by (simp_all add: seg_box_keeps_ov seg_box_draws draws_color_def)
  then have "ov (seg_loop predict color h w (seg_box predict color h w ?t b) ys) = ov (seg_loop predict color h w ?t ys) \<and>
      draws (seg_loop predict color h w (seg_box predict color h w ?t b) ys) = draws (seg_loop predict color h w ?t ys)"
    by (rule seg_loop_ov_draws_cong)
  then show ?thesis by (simp add: seg_loop_append)
qed

theorem seg_loop_error_isolated_witness:
  "ov (seg_loop (\<lambda>b. if b = Box NaN NaN NaN NaN then Inl PredictorError else Inr [[True]]) (\<lambda>_. (2, 2, 2)) 1 1
        \<lparr>ov = [[(0, 0, 0)]], draws = 0, seg_log = []\<rparr> [Box NaN NaN NaN NaN, Box (Fin 0) (Fin 0) (Fin 1) (Fin 1)])
   = ov (seg_loop (\<lambda>b. if b = Box NaN NaN NaN NaN then Inl PredictorError else Inr [[True]]) (\<lambda>_. (2, 2, 2)) 1 1
        \<lparr>ov = [[(0, 0, 0)]], draws = 0, seg_log = []\<rparr> [Box (Fin 0) (Fin 0) (Fin 1) (Fin 1)])"
  using seg_loop_error_isolated [of "\<lambda>b. if b = Box NaN NaN NaN NaN then Inl PredictorError else Inr [[True]]"
      "Box NaN NaN NaN NaN" PredictorError "\<lambda>_. (2, 2, 2)" 1 1 "\<lparr>ov = [[(0, 0, 0)]], draws = 0, seg_log = []\<rparr>"
      "[]" "[Box (Fin 0) (Fin 0) (Fin 1) (Fin 1)]"]
  by simp

text \<open>
  C21: the loop draws one colour from the random stream for every box that passes
  the check and gets a non-empty mask, and for no other box.
\<close>

theorem seg_loop_draw_count:
  "draws (seg_loop predict color h w s bs) = draws s + length (filter (draws_color predict h w) bs)"
  by (induction bs arbitrary: s) (simp_all add: seg_box_draws)

end
