(* ===== verification/Store.thy ===== *)
theory Store
  imports Prelude "HOL-Library.AList" "HOL-Library.Sublist"
begin

text \<open>
  The part of the operating system and of the image and XML libraries that the
  two scripts call: a store of files and directories addressed by paths (lists
  of path components, \<open>os.path.join(a, b)\<close> being \<open>a @ [b]\<close>), and the calls
  \<open>os.makedirs\<close>, \<open>os.listdir\<close>, \<open>os.path.exists\<close>, \<open>cv2.imread\<close>,
  \<open>cv2.imwrite\<close>, \<open>PIL.Image.open\<close>, \<open>Image.save\<close>, \<open>open(p, 'w')\<close> and
  \<open>ET.parse\<close>, each with the exceptions it raises. None of this code is under
  src/: it is modelled from the documented behaviour of these calls.
\<close>

named_theorems frame_intros "operations that keep the existing entries outside a directory"

section \<open>Files\<close>

text \<open>An element of \<open>xml.etree.ElementTree\<close>: tag, \<open>.text\<close> and children.\<close>

datatype xml = Elem (xtag: string) (xtext: "string option") (xchildren: "xml list")

text \<open>
  What a file holds, as far as the decoders see it: a colour image (the array
  \<open>cv2.imread\<close> returns, channels in BGR order), a single-channel 8-bit image
  (PIL mode \<open>L\<close>), a well-formed XML document, text, or bytes that no decoder
  accepts.
\<close>

datatype content =
    Image "rgb grid"
  | GrayImage "u8 grid"
  | XmlDoc xml
  | Text string
  | Other

datatype node = Dir | File content

text \<open>
  The world the scripts run in: the store as an association list from paths to
  nodes (in the order in which \<open>os.listdir\<close> reports them), what was printed,
  and the position in the stream of \<open>np.random\<close>.
\<close>

record world =
  fs :: "(path \<times> node) list"
  out :: "msg list"
  rng :: nat

definition node_at :: "world \<Rightarrow> path \<Rightarrow> node option" where
  "node_at w p = (if p = [] then Some Dir else map_of (fs w) p)"

definition put_node :: "path \<Rightarrow> node \<Rightarrow> world \<Rightarrow> world" where
  "put_node p n w = w\<lparr>fs := AList.update p n (fs w)\<rparr>"

definition print :: "msg \<Rightarrow> (world, unit) exc" where
  "print m = modify (\<lambda>w. w\<lparr>out := out w @ [m]\<rparr>)"

section \<open>The calls\<close>

text \<open>\<open>os.path.exists(p)\<close>.\<close>

definition path_exists :: "world \<Rightarrow> path \<Rightarrow> bool" where
  "path_exists w p \<longleftrightarrow> node_at w p \<noteq> None"

text \<open>
  The error of opening \<open>p\<close> for writing, if any: its directory must exist and
  \<open>p\<close> must not be a directory.
\<close>

definition open_error :: "world \<Rightarrow> path \<Rightarrow> py_error option" where
  "open_error w p =
     (if p = [] then Some IsADirectoryError
      else (case node_at w (butlast p) of
              None \<Rightarrow> Some FileNotFoundError
            | Some (File _) \<Rightarrow> Some NotADirectoryError
            | Some Dir \<Rightarrow> (if node_at w p = Some Dir then Some IsADirectoryError else None)))"

text \<open>Writing a whole file: \<open>open(p, 'w')\<close> followed by its writes, or \<open>Image.save(p)\<close>.\<close>

definition write_file :: "path \<Rightarrow> content \<Rightarrow> (world, unit) exc" where
  "write_file p c w = (case open_error w p of Some e \<Rightarrow> (Inl e, w) | None \<Rightarrow> (Inr (), put_node p (File c) w))"

text \<open>
  \<open>os.makedirs(p, exist_ok=True)\<close>: every missing prefix of \<open>p\<close> is created,
  shortest first. A prefix that is a file stops it: \<open>FileExistsError\<close> for
  \<open>p\<close> itself, \<open>NotADirectoryError\<close> for a shorter one. Each step is
  \<open>os.mkdir\<close>, which also checks that the parent directory exists.
\<close>

definition mkdir_step :: "path \<Rightarrow> path \<Rightarrow> (world, unit) exc" where
  "mkdir_step p q w =
     (case node_at w q of
        Some Dir \<Rightarrow> (Inr (), w)
      | Some (File _) \<Rightarrow> (Inl (if q = p then FileExistsError else NotADirectoryError), w)
      | None \<Rightarrow> (case open_error w q of Some e \<Rightarrow> (Inl e, w) | None \<Rightarrow> (Inr (), put_node q Dir w)))"

definition makedirs :: "path \<Rightarrow> (world, unit) exc" where
  "makedirs p = (if p = [] then raise FileNotFoundError
                 else forE (mkdir_step p) (map (\<lambda>i. take i p) [1..<Suc (length p)]))"

text \<open>\<open>os.listdir(p)\<close>: the names of the entries directly below \<open>p\<close>.\<close>

definition listdir :: "path \<Rightarrow> (world, string list) exc" where
  "listdir p w =
     (case node_at w p of
        None \<Rightarrow> (Inl FileNotFoundError, w)
      | Some (File _) \<Rightarrow> (Inl NotADirectoryError, w)
      | Some Dir \<Rightarrow> (Inr [last q. (q, n) \<leftarrow> fs w, q \<noteq> [] \<and> butlast q = p], w))"

text \<open>
  \<open>cv2.imread(p)\<close>: the BGR array of an image file (a single-channel image is
  read with three equal channels), \<open>None\<close> for anything else; it never raises.
\<close>

definition imread :: "world \<Rightarrow> path \<Rightarrow> rgb grid option" where
  "imread w p =
     (case node_at w p of
        Some (File (Image img)) \<Rightarrow> Some img
      | Some (File (GrayImage g)) \<Rightarrow> Some (grid_map (\<lambda>v. (v, v, v)) g)
      | _ \<Rightarrow> None)"

text \<open>
  \<open>cv2.imwrite(p, img)\<close>: writes the file when it can and otherwise returns
  \<open>False\<close>, which both callers ignore.
\<close>

definition imwrite :: "path \<Rightarrow> rgb grid \<Rightarrow> (world, unit) exc" where
  "imwrite p img w = (case open_error w p of Some _ \<Rightarrow> (Inr (), w) | None \<Rightarrow> (Inr (), put_node p (File (Image img)) w))"

text \<open>
  \<open>np.array(Image.open(p))\<close>: a 2-D array for a single-channel image, a 3-D
  RGB array for a colour image.
\<close>

datatype pil_array = Arr2 "u8 grid" | Arr3 "rgb grid"

definition pil_open :: "path \<Rightarrow> (world, pil_array) exc" where
  "pil_open p w =
     (case node_at w p of
        None \<Rightarrow> (Inl FileNotFoundError, w)
      | Some Dir \<Rightarrow> (Inl IsADirectoryError, w)
      | Some (File (Image img)) \<Rightarrow> (Inr (Arr3 (cvt_color img)), w)
      | Some (File (GrayImage g)) \<Rightarrow> (Inr (Arr2 g), w)
      | Some (File _) \<Rightarrow> (Inl UnidentifiedImageError, w))"

text \<open>\<open>Image.save(p)\<close> of an opened array. The file is modelled by the picture it holds; the loss of the JPEG encoder is not modelled.\<close>

definition pil_save :: "path \<Rightarrow> pil_array \<Rightarrow> (world, unit) exc" where
  "pil_save p a = write_file p (case a of Arr2 g \<Rightarrow> GrayImage g | Arr3 img \<Rightarrow> Image (cvt_color img))"

text \<open>\<open>ET.parse(p).getroot()\<close>.\<close>

definition et_parse :: "path \<Rightarrow> (world, xml) exc" where
  "et_parse p w =
     (case node_at w p of
        None \<Rightarrow> (Inl FileNotFoundError, w)
      | Some Dir \<Rightarrow> (Inl IsADirectoryError, w)
      | Some (File (XmlDoc x)) \<Rightarrow> (Inr x, w)
      | Some (File _) \<Rightarrow> (Inl ParseError, w))"

section \<open>File names\<close>

text \<open>\<open>str.endswith(suf)\<close>.\<close>

definition ends_with :: "string \<Rightarrow> string \<Rightarrow> bool" where
  "ends_with s suf \<longleftrightarrow> length suf \<le> length s \<and> drop (length s - length suf) s = suf"

text \<open>\<open>str.replace(old, new)\<close>: every occurrence, left to right, without overlaps.\<close>

function replace_all :: "string \<Rightarrow> string \<Rightarrow> string \<Rightarrow> string" where
  "replace_all old new [] = (if old = [] then new else [])"
| "replace_all old new (c # cs) =
     (if old = [] then new @ c # replace_all old new cs
      else if take (length old) (c # cs) = old then new @ replace_all old new (drop (length old) (c # cs))
      else c # replace_all old new cs)"
  by pat_completeness auto
termination by (relation "measure (\<lambda>(_, _, s). length s)") auto

text \<open>
  \<open>os.path.splitext(name)[0]\<close> of a file name: everything before the last dot,
  unless only dots precede it (\<open>".png"\<close> has no extension).
\<close>

definition splitext_root :: "string \<Rightarrow> string" where
  "splitext_root p =
     (let ds = filter (\<lambda>i. p ! i = CHR ''.'') [0..<length p] in
      if ds = [] then p
      else if list_ex (\<lambda>c. c \<noteq> CHR ''.'') (take (last ds) p) then take (last ds) p else p)"

section \<open>Frames\<close>

text \<open>
  An operation leaves every existing entry that is not below \<open>r\<close> as it was (it
  may add directories, as \<open>makedirs\<close> does for the missing ancestors of its path).
\<close>

definition keeps_outside :: "path \<Rightarrow> (world, 'a) exc \<Rightarrow> bool" where
  "keeps_outside r m \<longleftrightarrow>
     (\<forall>w q n. \<not> prefix r q \<longrightarrow> node_at w q = Some n \<longrightarrow> node_at (snd (m w)) q = Some n)"

section \<open>Lemmas\<close>

lemma node_at_put_node [simp]:
  "p \<noteq> [] \<Longrightarrow> node_at (put_node p n w) q = (if q = p then Some n else node_at w q)"
  by (simp add: node_at_def put_node_def update_conv')

lemma keeps_outside_ret [frame_intros]: "keeps_outside r (ret a)"
  and keeps_outside_raise [frame_intros]: "keeps_outside r (raise e)"
  by (simp_all add: keeps_outside_def)

lemma keeps_outside_bindE [frame_intros]:
  "keeps_outside r m \<Longrightarrow> (\<And>a. keeps_outside r (f a)) \<Longrightarrow> keeps_outside r (bindE m f)"
  unfolding keeps_outside_def bindE_def by (auto split: prod.splits sum.splits) (metis snd_conv)+

lemma keeps_outside_catchE [frame_intros]:
  "keeps_outside r m \<Longrightarrow> (\<And>e. keeps_outside r (h e)) \<Longrightarrow> keeps_outside r (catchE m h)"
  unfolding keeps_outside_def catchE_def by (auto split: prod.splits sum.splits) (metis snd_conv)+

lemma keeps_outside_forE [frame_intros]: "(\<And>x. keeps_outside r (f x)) \<Longrightarrow> keeps_outside r (forE f xs)"
  by (induction xs) (simp_all add: keeps_outside_ret keeps_outside_bindE)

lemma keeps_outside_If [frame_intros]: "keeps_outside r a \<Longrightarrow> keeps_outside r b \<Longrightarrow> keeps_outside r (if c then a else b)"
  by simp_all

lemma keeps_outside_print [frame_intros]: "keeps_outside r (print m)"
  by (simp add: keeps_outside_def print_def node_at_def)

lemma keeps_outside_reads [frame_intros]:
  "keeps_outside r (listdir p)" "keeps_outside r (pil_open p)" "keeps_outside r (et_parse p)"
  by (auto simp add: keeps_outside_def listdir_def pil_open_def et_parse_def
           split: option.splits node.splits content.splits)

lemma open_error_None:
  "open_error w p = None \<Longrightarrow> p \<noteq> [] \<and> node_at w (butlast p) = Some Dir \<and> node_at w p \<noteq> Some Dir"
  by (auto simp add: open_error_def split: if_splits option.splits node.splits)

lemma keeps_outside_write_file [frame_intros]: "prefix r p \<Longrightarrow> keeps_outside r (write_file p c)"
  unfolding keeps_outside_def write_file_def
  by (auto split: option.splits dest!: open_error_None)

lemma keeps_outside_imwrite [frame_intros]: "prefix r p \<Longrightarrow> keeps_outside r (imwrite p img)"
  unfolding keeps_outside_def imwrite_def
  by (auto split: option.splits dest!: open_error_None)

lemma keeps_outside_pil_save [frame_intros]: "prefix r p \<Longrightarrow> keeps_outside r (pil_save p a)"
  by (simp add: pil_save_def keeps_outside_write_file)

lemma keeps_outside_makedirs [frame_intros]: "keeps_outside r (makedirs p)"
proof -
  have "keeps_outside r (mkdir_step p q)" for q
    unfolding keeps_outside_def mkdir_step_def
    by (auto split: option.splits node.splits dest!: open_error_None)
  then show ?thesis by (simp add: makedirs_def keeps_outside_raise keeps_outside_forE)
qed

lemma node_at_out_rng [simp]: "node_at (w\<lparr>out := x, rng := y\<rparr>) = node_at w" "node_at (w\<lparr>out := x\<rparr>) = node_at w"
  by (simp_all add: node_at_def fun_eq_iff)

lemma open_error_out_rng [simp]: "open_error (w\<lparr>out := x, rng := y\<rparr>) = open_error w" "open_error (w\<lparr>out := x\<rparr>) = open_error w"
  by (simp_all add: open_error_def fun_eq_iff)

lemma catchE_print_Inr: "fst (catchE m (\<lambda>e. print (g e)) w) = Inr ()"
  by (cases "m w") (auto simp add: catchE_def print_def split: sum.splits)

lemma keeps_outside_gets [frame_intros]: "keeps_outside r (gets f)"
  by (simp add: keeps_outside_def)

lemma keeps_outside_modify [frame_intros]: "(\<And>w. fs (f w) = fs w) \<Longrightarrow> keeps_outside r (modify f)"
  by (simp add: keeps_outside_def node_at_def)

lemma keeps_outside_case_sum [frame_intros]:
  "(\<And>e. keeps_outside r (f e)) \<Longrightarrow> (\<And>a. keeps_outside r (g a)) \<Longrightarrow>
   keeps_outside r (case x of Inl e \<Rightarrow> f e | Inr a \<Rightarrow> g a)"
  by (cases x) simp_all

lemma keeps_outside_case_prod [frame_intros]:
  "(\<And>a b. keeps_outside r (f a b)) \<Longrightarrow> keeps_outside r (case x of (a, b) \<Rightarrow> f a b)"
  by (cases x) simp

lemma put_node_put_node: "put_node p n (put_node p n' w) = put_node p n w"
  by (simp add: put_node_def)

lemma print_apply: "print m w = (Inr (), w\<lparr>out := out w @ [m]\<rparr>)"
  by (simp add: print_def)

lemma imread_out_rng [simp]: "imread (w\<lparr>out := x, rng := y\<rparr>) = imread w" "imread (w\<lparr>out := x\<rparr>) = imread w"
  by (simp_all add: imread_def fun_eq_iff)

lemma keeps_outside_case_pil [frame_intros]:
  "(\<And>g. keeps_outside r (f g)) \<Longrightarrow> (\<And>img. keeps_outside r (h img)) \<Longrightarrow>
   keeps_outside r (case a of Arr2 g \<Rightarrow> f g | Arr3 img \<Rightarrow> h img)"
  by (cases a) simp_all

lemma write_file_ok: "open_error w p = None \<Longrightarrow> write_file p c w = (Inr (), put_node p (File c) w)"
  by (simp add: write_file_def)

lemma write_file_other: "q \<noteq> p \<Longrightarrow> node_at (snd (write_file p c w)) q = node_at w q"
  by (auto simp add: write_file_def dest: open_error_None split: option.splits)

lemma open_error_put_file:
  "open_error w p = None \<Longrightarrow> open_error (put_node p (File c) w) p = None"
proof -
  assume a: "open_error w p = None"
  then have "p \<noteq> []" and "node_at w (butlast p) = Some Dir" using open_error_None by blast+
  moreover have "butlast p \<noteq> p" using \<open>p \<noteq> []\<close> by (metis append_butlast_last_id append_self_conv self_append_conv2 list.distinct(1))
  ultimately show ?thesis by (simp add: open_error_def)
qed

lemma pil_open_state: "snd (pil_open p w) = w"
  by (simp add: pil_open_def split: option.splits node.splits content.splits)

lemma replace_all_only_suffix:
  assumes "\<not> sublist old (s @ butlast old)"
  shows "replace_all old new (s @ old) = s @ new"
  using assms
proof (induction s)
  case Nil
  then have "old \<noteq> []" by auto
  then show ?case by (cases old) simp_all
next
  case (Cons c s)
  have ne: "old \<noteq> []" using Cons.prems by auto
  have "\<not> sublist old (s @ butlast old)"
    using Cons.prems by (simp add: sublist_Cons_right)
  then have IH: "replace_all old new (s @ old) = s @ new" by (rule Cons.IH)
  have "c # s @ old = (c # s @ butlast old) @ [last old]" using ne by simp
  then have "take (length old) (c # s @ old) = take (length old) (c # s @ butlast old)"
    using ne by (simp del: append.simps(2) append_Cons)
  moreover have "\<not> prefix old (c # s @ butlast old)" using Cons.prems by (auto dest: prefix_imp_sublist)
  ultimately have "take (length old) (c # s @ old) \<noteq> old"
    by (metis take_is_prefix)
  with ne IH show ?case by simp
qed

lemma open_error_put_node_other:
  "p \<noteq> [] \<Longrightarrow> p \<noteq> q \<Longrightarrow> p \<noteq> butlast q \<Longrightarrow> open_error (put_node p n w) q = open_error w q"
  by (simp add: open_error_def)

end
