(* ===== verification/Xml_Labels.thy ===== *)
theory Xml_Labels
  imports Store
begin

text \<open>
  \<open>read_labels_from_xml\<close> of \<^verbatim>\<open>src/sam_segmentation_with_bounding_boxes.py\<close>
  (lines 25-42): the \<open>object\<close> children of the root of a Pascal VOC annotation,
  the four coordinates of each \<open>bndbox\<close> read with \<open>float()\<close>, and the
  \<open>try\<close> around the whole loop that prints the error and returns the boxes read
  before it. Python's \<open>float()\<close> on a string is modelled here too.
\<close>

section \<open>Python's float() of a string\<close>

definition is_digit :: "char \<Rightarrow> bool" where
  "is_digit c \<longleftrightarrow> 48 \<le> (of_char c :: nat) \<and> (of_char c :: nat) \<le> 57"

definition is_space :: "char \<Rightarrow> bool" where
  "is_space c \<longleftrightarrow> (of_char c :: nat) = 32 \<or> (9 \<le> (of_char c :: nat) \<and> (of_char c :: nat) \<le> 13)"

text \<open>\<open>float()\<close> ignores leading and trailing white space.\<close>

definition strip :: "string \<Rightarrow> string" where
  "strip s = rev (dropWhile is_space (rev (dropWhile is_space s)))"

definition lower :: "char \<Rightarrow> char" where
  "lower c = (if 65 \<le> (of_char c :: nat) \<and> (of_char c :: nat) \<le> 90 then char_of (of_char c + (32 :: nat)) else c)"

text \<open>An optional sign: \<open>True\<close> for a minus.\<close>

definition sign_of :: "string \<Rightarrow> bool \<times> string" where
  "sign_of s = (case s of c # r \<Rightarrow> if c = CHR ''-'' then (True, r) else if c = CHR ''+'' then (False, r) else (False, s)
                        | [] \<Rightarrow> (False, []))"

text \<open>
  A digit part: digits, with single underscores allowed between two digits
  (PEP 515), and its value.
\<close>

definition span_digits :: "string \<Rightarrow> string \<times> string" where
  "span_digits s = (takeWhile (\<lambda>c. is_digit c \<or> c = CHR ''_'') s, dropWhile (\<lambda>c. is_digit c \<or> c = CHR ''_'') s)"

fun no_double_us :: "string \<Rightarrow> bool" where
  "no_double_us (a # b # r) = (\<not> (a = CHR ''_'' \<and> b = CHR ''_'') \<and> no_double_us (b # r))"
| "no_double_us _ = True"

definition digitpart_ok :: "string \<Rightarrow> bool" where
  "digitpart_ok ds \<longleftrightarrow> ds \<noteq> [] \<and> is_digit (hd ds) \<and> is_digit (last ds) \<and> no_double_us ds"

definition digits_val :: "string \<Rightarrow> nat" where
  "digits_val ds = foldl (\<lambda>n c. 10 * n + (of_char c - 48)) 0 (filter is_digit ds)"

definition scale10 :: "rat \<Rightarrow> int \<Rightarrow> rat" where
  "scale10 q e = (if 0 \<le> e then q * 10 ^ nat e else q / 10 ^ nat (- e))"

text \<open>The exponent after \<open>e\<close> or \<open>E\<close>, which must end the string.\<close>

definition parse_exp :: "string \<Rightarrow> int option" where
  "parse_exp s = (case sign_of s of (neg, r) \<Rightarrow> case span_digits r of (c, r') \<Rightarrow>
     if digitpart_ok c \<and> r' = [] then Some (if neg then - int (digits_val c) else int (digits_val c)) else None)"

text \<open>
  An unsigned decimal: digits, an optional point with digits (one side may be
  empty, not both), an optional exponent. The value is exact; the rounding to
  the nearest double is not modelled.
\<close>

definition parse_decimal :: "string \<Rightarrow> rat option" where
  "parse_decimal s = (case span_digits s of (a, r1) \<Rightarrow>
     let (b, dot, r2) = (case r1 of c # r \<Rightarrow> if c = CHR ''.'' then (case span_digits r of (b, r2) \<Rightarrow> (b, True, r2))
                                           else ([], False, r1) | [] \<Rightarrow> ([], False, []));
         ok = (if dot then (a = [] \<or> digitpart_ok a) \<and> (b = [] \<or> digitpart_ok b) \<and> (a \<noteq> [] \<or> b \<noteq> [])
               else digitpart_ok a);
         ex = (case r2 of [] \<Rightarrow> Some 0 | c # r \<Rightarrow> if c = CHR ''e'' \<or> c = CHR ''E'' then parse_exp r else None)
     in case ex of None \<Rightarrow> None
        | Some e \<Rightarrow> if ok then Some (scale10 (of_nat (digits_val a) + of_nat (digits_val b) / 10 ^ length (filter is_digit b)) e)
                   else None)"

text \<open>\<open>float(s)\<close>: \<open>None\<close> is the \<open>ValueError\<close>.\<close>

definition py_float :: "string \<Rightarrow> pyfloat option" where
  "py_float s = (case sign_of (strip s) of (neg, u) \<Rightarrow>
     if map lower u = ''inf'' \<or> map lower u = ''infinity'' then Some (if neg then NegInf else PosInf)
     else if map lower u = ''nan'' then Some NaN
     else map_option (\<lambda>q. Fin (if neg then - q else q)) (parse_decimal u))"

section \<open>Reading the annotation\<close>

text \<open>\<open>Element.find(tag)\<close>: the first child with that tag.\<close>

fun find_child :: "string \<Rightarrow> xml list \<Rightarrow> xml option" where
  "find_child t [] = None"
| "find_child t (e # es) = (if xtag e = t then Some e else find_child t es)"

text \<open>\<open>Element.findall(tag)\<close>: the children with that tag, in document order.\<close>

definition findall :: "string \<Rightarrow> xml \<Rightarrow> xml list" where
  "findall t x = filter (\<lambda>e. xtag e = t) (xchildren x)"

text \<open>
  \<open>float(bndbox.find(t).text)\<close>: \<open>AttributeError\<close> when there is no such
  child (\<open>None.text\<close>), \<open>TypeError\<close> when it has no text (\<open>float(None)\<close>),
  \<open>ValueError\<close> when the text is not a number.
\<close>

definition coord :: "xml \<Rightarrow> string \<Rightarrow> py_error + pyfloat" where
  "coord bb t = (case find_child t (xchildren bb) of
       None \<Rightarrow> Inl AttributeError
     | Some e \<Rightarrow> (case xtext e of
         None \<Rightarrow> Inl TypeError
       | Some s \<Rightarrow> (case py_float s of None \<Rightarrow> Inl ValueError | Some f \<Rightarrow> Inr f)))"

text \<open>Lines 33-39 for one object: no box without a \<open>bndbox\<close>; the coordinates in order.\<close>

definition obj_box :: "xml \<Rightarrow> py_error + box option" where
  "obj_box obj = (case find_child ''bndbox'' (xchildren obj) of
       None \<Rightarrow> Inr None
     | Some bb \<Rightarrow>
         (case coord bb ''xmin'' of Inl e \<Rightarrow> Inl e | Inr x0 \<Rightarrow>
          case coord bb ''ymin'' of Inl e \<Rightarrow> Inl e | Inr y0 \<Rightarrow>
          case coord bb ''xmax'' of Inl e \<Rightarrow> Inl e | Inr x1 \<Rightarrow>
          case coord bb ''ymax'' of Inl e \<Rightarrow> Inl e | Inr y1 \<Rightarrow> Inr (Some (Box x0 y0 x1 y1))))"

text \<open>The loop of lines 32-39: the list so far, and the exception that ended it.\<close>

fun read_objs :: "xml list \<Rightarrow> box list \<Rightarrow> box list \<times> py_error option" where
  "read_objs [] acc = (acc, None)"
| "read_objs (ob # obs) acc = (case obj_box ob of
       Inl e \<Rightarrow> (acc, Some e)
     | Inr None \<Rightarrow> read_objs obs acc
     | Inr (Some b) \<Rightarrow> read_objs obs (acc @ [b]))"

text \<open>Lines 27-42: it never raises; an exception is printed and the list so far returned.\<close>

definition read_labels_from_xml :: "path \<Rightarrow> (world, box list) exc" where
  "read_labels_from_xml p w =
     (case et_parse p w of
        (Inl e, w') \<Rightarrow> (Inr [], snd (print (XmlError p e) w'))
      | (Inr doc, w') \<Rightarrow> (case read_objs (findall ''object'' doc) [] of
          (bs, None) \<Rightarrow> (Inr bs, w')
        | (bs, Some e) \<Rightarrow> (Inr bs, snd (print (XmlError p e) w'))))"

section \<open>What the reader returns\<close>

text \<open>
  An object reads without an exception; the boxes of the objects before the
  first that does not; the exception of that object.
\<close>

definition obj_ok :: "xml \<Rightarrow> bool" where
  "obj_ok ob \<longleftrightarrow> \<not> isl (obj_box ob)"

definition good_boxes :: "xml list \<Rightarrow> box list" where
  "good_boxes obs = concat (map (\<lambda>ob. case obj_box ob of Inr (Some b) \<Rightarrow> [b] | _ \<Rightarrow> []) (takeWhile obj_ok obs))"

definition first_error :: "xml list \<Rightarrow> py_error option" where
  "first_error obs = (case dropWhile obj_ok obs of [] \<Rightarrow> None | ob # _ \<Rightarrow> (case obj_box ob of Inl e \<Rightarrow> Some e | Inr _ \<Rightarrow> None))"

text \<open>An annotation with a good object, one without a box, one without \<open>ymin\<close> text, and a good one.\<close>

definition ex_doc :: xml where
  "ex_doc = Elem ''annotation'' None
     [Elem ''object'' None [Elem ''bndbox'' None
        [Elem ''xmin'' (Some ''10'') [], Elem ''ymin'' (Some ''20.5'') [], Elem ''xmax'' (Some ''30'') [], Elem ''ymax'' (Some ''40'') []]],
      Elem ''object'' None [Elem ''name'' (Some ''cat'') []],
      Elem ''object'' None [Elem ''bndbox'' None [Elem ''xmin'' (Some ''1'') [], Elem ''ymin'' None []]],
      Elem ''object'' None [Elem ''bndbox'' None
        [Elem ''xmin'' (Some ''1'') [], Elem ''ymin'' (Some ''2'') [], Elem ''xmax'' (Some ''3'') [], Elem ''ymax'' (Some ''4'') []]]]"

section \<open>Lemmas\<close>

lemma read_objs_spec: "read_objs obs acc = (acc @ good_boxes obs, first_error obs)"
proof (induction obs arbitrary: acc)
  case Nil
  then show ?case by (simp add: good_boxes_def first_error_def)
next
  case (Cons ob obs)
  then show ?case
    by (cases "obj_box ob" rule: sum.exhaust; auto simp add: good_boxes_def first_error_def obj_ok_def split: option.splits)
qed

lemma is_digit_not_special [simp]:
  "is_digit c \<Longrightarrow> \<not> is_space c" "is_digit c \<Longrightarrow> c \<noteq> CHR ''-''" "is_digit c \<Longrightarrow> c \<noteq> CHR ''+''"
  "is_digit c \<Longrightarrow> c \<noteq> CHR ''.''" "is_digit c \<Longrightarrow> c \<noteq> CHR ''_''" "is_digit c \<Longrightarrow> lower c = c"
  by (auto simp add: is_digit_def is_space_def lower_def)

lemma is_digit_chars [simp]: "is_digit CHR ''0''" "\<not> is_digit CHR ''.''" "\<not> is_space CHR ''.''" "\<not> is_space CHR ''0''"
  by (simp_all add: is_digit_def is_space_def)


lemma strip_no_space: "list_all (\<lambda>c. \<not> is_space c) s \<Longrightarrow> strip s = s"
proof -
  have dw: "(\<forall>c\<in>set xs. \<not> is_space c) \<Longrightarrow> dropWhile is_space xs = xs" for xs
    by (cases xs) simp_all
  assume "list_all (\<lambda>c. \<not> is_space c) s"
  then have "\<forall>c\<in>set s. \<not> is_space c" and "\<forall>c\<in>set (rev s). \<not> is_space c" by (simp_all add: list_all_iff)
  then show ?thesis by (simp add: strip_def dw)
qed

lemma span_digits_digits:
  "list_all is_digit ds \<Longrightarrow> \<not> is_digit c \<Longrightarrow> c \<noteq> CHR ''_'' \<Longrightarrow> span_digits (ds @ c # r) = (ds, c # r)"
  by (induction ds) (auto simp add: span_digits_def)

lemma span_digits_all: "list_all is_digit ds \<Longrightarrow> span_digits ds = (ds, [])"
  by (induction ds) (auto simp add: span_digits_def)

lemma no_double_us_digits: "list_all is_digit ds \<Longrightarrow> no_double_us ds"
  by (induction ds rule: no_double_us.induct) auto

lemma digitpart_ok_digits: "ds \<noteq> [] \<Longrightarrow> list_all is_digit ds \<Longrightarrow> digitpart_ok ds"
  by (simp add: digitpart_ok_def no_double_us_digits list_all_iff)

lemma digits_not_word:
  assumes "ds \<noteq> []" and "list_all is_digit ds"
  shows "map lower (ds @ r) \<noteq> ''inf'' \<and> map lower (ds @ r) \<noteq> ''infinity'' \<and> map lower (ds @ r) \<noteq> ''nan''"
proof -
  from assms obtain c cs where "ds = c # cs" and "is_digit c" by (cases ds) auto
  then show ?thesis by (auto simp add: is_digit_def)
qed

lemma py_float_point0:
  assumes "ds \<noteq> []" and "list_all is_digit ds"
  shows "py_float (ds @ ''.0'') = Some (Fin (of_nat (digits_val ds)))"
proof -
  have ns: "list_all (\<lambda>c. \<not> is_space c) (ds @ ''.0'')" using assms(2) by (auto simp add: list_all_iff)
  from assms obtain c cs where ds: "ds = c # cs" and "is_digit c" by (cases ds) auto
  then have sg: "sign_of (ds @ ''.0'') = (False, ds @ ''.0'')" by (simp add: sign_of_def)
  have "parse_decimal (ds @ ''.0'') = Some (of_nat (digits_val ds))"
    using assms by (simp add: parse_decimal_def span_digits_digits span_digits_all digitpart_ok_digits
        digits_val_def scale10_def)
  then show ?thesis using digits_not_word [OF assms, of "''.0''"]
    by (simp add: py_float_def strip_no_space [OF ns] sg)
qed


lemma et_parse_doc: "node_at w p = Some (File (XmlDoc doc)) \<Longrightarrow> et_parse p w = (Inr doc, w)"
  by (simp add: et_parse_def)

text \<open>
  C5: on a well-formed annotation the reader returns the boxes of the objects
  before the first object whose coordinates fail to read (objects without a
  \<open>bndbox\<close> give none), prints one error message when such an object
  exists, and changes nothing else.
\<close>

theorem read_labels_from_xml_partial:
  assumes "node_at w p = Some (File (XmlDoc doc))"
  shows "read_labels_from_xml p w =
    (Inr (good_boxes (findall ''object'' doc)),
     w\<lparr>out := out w @ (case first_error (findall ''object'' doc) of None \<Rightarrow> [] | Some e \<Rightarrow> [XmlError p e])\<rparr>)"
  by (simp add: read_labels_from_xml_def et_parse_doc [OF assms] read_objs_spec print_def split: option.splits)

theorem read_labels_from_xml_partial_witness:
  "read_labels_from_xml [''a.xml''] \<lparr>fs = [([''a.xml''], File (XmlDoc ex_doc))], out = [], rng = 0\<rparr> =
    (Inr [Box (Fin 10) (Fin (41 / 2)) (Fin 30) (Fin 40)],
     \<lparr>fs = [([''a.xml''], File (XmlDoc ex_doc))], out = [XmlError [''a.xml''] TypeError], rng = 0\<rparr>)"
proof -
  have "node_at \<lparr>fs = [([''a.xml''], File (XmlDoc ex_doc))], out = [], rng = 0\<rparr> [''a.xml''] = Some (File (XmlDoc ex_doc))"
    by (simp add: node_at_def)
  from read_labels_from_xml_partial [OF this] show ?thesis
    by (simp add: ex_doc_def good_boxes_def first_error_def findall_def obj_ok_def obj_box_def coord_def
        py_float_def strip_def sign_of_def parse_decimal_def span_digits_def digitpart_ok_def digits_val_def
        scale10_def is_digit_def is_space_def lower_def parse_exp_def)
qed

text \<open>
  C26: the reader never raises, whatever the file holds, and leaves the store and
  the random stream untouched: only its message can be printed.
\<close>

theorem read_labels_from_xml_total:
  "(\<exists>bs. fst (read_labels_from_xml p w) = Inr bs) \<and> fs (snd (read_labels_from_xml p w)) = fs w \<and>
   rng (snd (read_labels_from_xml p w)) = rng w"
  by (simp add: read_labels_from_xml_def et_parse_def print_def
      split: option.splits node.splits content.splits prod.splits)


section \<open>The reader inside the world\<close>

lemma read_labels_from_xml_shape: "\<exists>bs ms. read_labels_from_xml p w = (Inr bs, w\<lparr>out := out w @ ms\<rparr>)"
proof -
  have err: "\<exists>bs ms. (Inr [], snd (print (XmlError p e) w)) = (Inr bs, w\<lparr>out := out w @ ms\<rparr>)" for e
    by (auto simp add: print_def)
  show ?thesis
  proof (cases "et_parse p w")
    case (Pair r w')
    have w': "w' = w" using Pair by (auto simp add: et_parse_def split: option.splits node.splits content.splits)
    show ?thesis
    proof (cases r)
      case (Inl e)
      then show ?thesis using Pair w' err by (simp add: read_labels_from_xml_def)
    next
      case (Inr doc)
      then show ?thesis using Pair w'
        by (cases "read_objs (findall ''object'' doc) []")
           (auto simp add: read_labels_from_xml_def print_def split: option.splits intro: exI [of _ "[]"])
    qed
  qed
qed

lemma keeps_outside_read_labels [frame_intros]: "keeps_outside r (read_labels_from_xml p)"
proof -
  have "node_at (snd (read_labels_from_xml p w)) = node_at w" for w
    using read_labels_from_xml_shape [of p w] by auto
  then show ?thesis by (simp add: keeps_outside_def)
qed

lemma read_labels_from_xml_doc:
  assumes "node_at w p = Some (File (XmlDoc doc))"
  shows "\<exists>ms. read_labels_from_xml p w = (Inr (good_boxes (findall ''object'' doc)), w\<lparr>out := out w @ ms\<rparr>)"
proof -
  have "fst (read_labels_from_xml p w) = Inr (good_boxes (findall ''object'' doc))"
    using assms by (simp add: read_labels_from_xml_def et_parse_def read_objs_spec print_def split: option.splits)
  with read_labels_from_xml_shape [of p w] show ?thesis by auto
qed

end
