(* ===== verification/Sam_Folder.thy ===== *)
theory Sam_Folder
  imports Overlay Xml_Labels
begin

text \<open>
  The file-level part of \<^verbatim>\<open>src/sam_segmentation_with_bounding_boxes.py\<close>:
  \<open>segment_with_boxes\<close> as a whole (lines 45-84: reading the image, the box
  loop of theory \<open>Overlay\<close>, writing the result), \<open>process_folder\<close> (lines
  87-107) and the script's main block (lines 109-117), over the world of theory
  \<open>Store\<close>. The global \<open>sam_predictor\<close> is the parameter \<open>sam\<close>.
\<close>

section \<open>One image\<close>

text \<open>
  Lines 47-84. \<open>load_image\<close> raises for an unreadable image; otherwise the box
  loop runs from the current position of the random stream, what it printed is
  printed, and the overlay, converted back to BGR, goes to \<open>cv2.imwrite\<close>,
  whose failure is not checked before the success message.
\<close>

definition segment_with_boxes :: "predictor \<Rightarrow> (nat \<Rightarrow> rgb) \<Rightarrow> path \<Rightarrow> box list \<Rightarrow> path \<Rightarrow> (world, unit) exc" where
  "segment_with_boxes sam color ip bs op =
     bindE (gets (\<lambda>w. imread w ip)) (\<lambda>r.
     case load_image r of
       Inl e \<Rightarrow> raise e
     | Inr img \<Rightarrow>
         bindE (gets rng) (\<lambda>k.
         let s = segment_core sam color img bs k in
         bindE (modify (\<lambda>w. w\<lparr>out := out w @ seg_log s, rng := draws s\<rparr>)) (\<lambda>_.
         bindE (imwrite op (cvt_color (ov s))) (\<lambda>_.
         print (ResultSaved op)))))"

section \<open>The folder\<close>

text \<open>
  The body of the loop of lines 93-107 for one name listed in the image folder
  \<open>imf\<close>, with annotation folder \<open>anf\<close> and output folder \<open>outf\<close>.
\<close>

definition process_file :: "predictor \<Rightarrow> (nat \<Rightarrow> rgb) \<Rightarrow> path \<Rightarrow> path \<Rightarrow> path \<Rightarrow> string \<Rightarrow> (world, unit) exc" where
  "process_file sam color imf anf outf name =
     (if ends_with name ''.jpg'' \<or> ends_with name ''.png'' then
        (let ip = imf @ [name]; lp = anf @ [splitext_root name @ ''.xml'']; op = outf @ [name] in
         bindE (gets (\<lambda>w. path_exists w lp)) (\<lambda>ex.
         if \<not> ex then print (LabelFileNotFound lp)
         else catchE (bindE (read_labels_from_xml lp) (\<lambda>bs. segment_with_boxes sam color ip bs op))
                     (\<lambda>e. print (FileError name e))))
      else ret ())"

text \<open>Lines 87-107.\<close>

definition process_folder :: "predictor \<Rightarrow> (nat \<Rightarrow> rgb) \<Rightarrow> path \<Rightarrow> path \<Rightarrow> (world, unit) exc" where
  "process_folder sam color df outf =
     (let imf = df @ [''JPEGImages'']; anf = df @ [''Annotations''] in
      bindE (makedirs outf) (\<lambda>_. bindE (listdir imf) (forE (process_file sam color imf anf outf))))"

text \<open>Lines 113-117: the \<open>try\<close> of the main block.\<close>

definition sam_main :: "predictor \<Rightarrow> (nat \<Rightarrow> rgb) \<Rightarrow> path \<Rightarrow> path \<Rightarrow> (world, unit) exc" where
  "sam_main sam color df outf =
     catchE (bindE (process_folder sam color df outf) (\<lambda>_. print AllProcessed)) (\<lambda>e. print (GeneralError e))"

text \<open>Lines 109-112: the fixed folders, as paths of components.\<close>

definition script_main :: "predictor \<Rightarrow> (nat \<Rightarrow> rgb) \<Rightarrow> (world, unit) exc" where
  "script_main sam color = sam_main sam color [''D:'', ''segmentation'', ''dataset''] [''D:'', ''segmentation'', ''output'']"

section \<open>An example folder\<close>

text \<open>
  A dataset folder \<open>d\<close> with one image and its annotation, an empty output
  folder \<open>o\<close>, and a model that marks the first pixel of the first row.
\<close>

definition ex_world :: world where
  "ex_world = \<lparr>fs = [([''d''], Dir), ([''d'', ''JPEGImages''], Dir), ([''d'', ''Annotations''], Dir), ([''o''], Dir),
     ([''d'', ''JPEGImages'', ''a.jpg''], File (Image [[(1, 2, 3), (4, 5, 6)]])),
     ([''d'', ''Annotations'', ''a.xml''], File (XmlDoc (Elem ''annotation'' None [Elem ''object'' None [Elem ''bndbox'' None
        [Elem ''xmin'' (Some ''0'') [], Elem ''ymin'' (Some ''0'') [], Elem ''xmax'' (Some ''1'') [], Elem ''ymax'' (Some ''1'') []]]])))],
     out = [], rng = 0\<rparr>"

definition ex_sam :: predictor where
  "ex_sam img b = Inr [[True, False]]"

section \<open>Lemmas\<close>

lemma keeps_outside_segment [frame_intros]:
  "prefix r op \<Longrightarrow> keeps_outside r (segment_with_boxes sam color ip bs op)"
  unfolding segment_with_boxes_def Let_def by (intro frame_intros; simp)

lemma keeps_outside_process_file [frame_intros]:
  "keeps_outside outf (process_file sam color imf anf outf name)"
  unfolding process_file_def Let_def by (intro frame_intros; simp)

lemma keeps_outside_sam_main [frame_intros]: "keeps_outside outf (sam_main sam color df outf)"
  unfolding sam_main_def process_folder_def Let_def by (intro frame_intros)

lemma segment_with_boxes_apply:
  assumes "imread w ip = Some img"
  shows "segment_with_boxes sam color ip bs op w =
    (let s = segment_core sam color (cvt_color img) bs (rng w);
         w1 = w\<lparr>out := out w @ seg_log s, rng := draws s\<rparr>;
         w2 = (case open_error w op of Some _ \<Rightarrow> w1 | None \<Rightarrow> put_node op (File (Image (cvt_color (ov s)))) w1)
     in (Inr (), w2\<lparr>out := out w2 @ [ResultSaved op]\<rparr>))"
  using assms by (simp add: segment_with_boxes_def load_image_def imwrite_def print_def Let_def split: option.splits)

text \<open>
  C3: for a listed image with a well-formed annotation and a readable image, the
  file written to the output folder under the same name is the overlay the box
  loop computes for the boxes the reader returns, converted back to BGR.
\<close>

theorem process_file_writes_overlay:
  assumes "ends_with name ''.jpg'' \<or> ends_with name ''.png''"
    and "node_at w (anf @ [splitext_root name @ ''.xml'']) = Some (File (XmlDoc doc))"
    and "imread w (imf @ [name]) = Some img"
    and "open_error w (outf @ [name]) = None"
  shows "node_at (snd (process_file sam color imf anf outf name w)) (outf @ [name]) =
    Some (File (Image (cvt_color (ov (segment_core sam color (cvt_color img) (good_boxes (findall ''object'' doc)) (rng w))))))"
proof -
  obtain ms where r: "read_labels_from_xml (anf @ [splitext_root name @ ''.xml'']) w =
      (Inr (good_boxes (findall ''object'' doc)), w\<lparr>out := out w @ ms\<rparr>)"
    using read_labels_from_xml_doc [OF assms(2)] by blast
  have "imread (w\<lparr>out := out w @ ms\<rparr>) (imf @ [name]) = Some img" using assms(3) by simp
  note seg = segment_with_boxes_apply [OF this]
  from assms(2) have "path_exists w (anf @ [splitext_root name @ ''.xml''])" by (simp add: path_exists_def)
  with assms(1,4) r show ?thesis
    by (simp add: process_file_def seg Let_def put_node_def node_at_def update_conv')
qed

text \<open>
  C22: the random stream is threaded through the folder: after an image with a
  well-formed annotation and a readable picture, the position in
  \<open>np.random\<close> is exactly where the box loop of that image, started at the
  position left by the images before it, stopped; the next image starts there.
\<close>

theorem process_file_stream:
  assumes "ends_with name ''.jpg'' \<or> ends_with name ''.png''"
    and "node_at w (anf @ [splitext_root name @ ''.xml'']) = Some (File (XmlDoc doc))"
    and "imread w (imf @ [name]) = Some img"
  shows "rng (snd (process_file sam color imf anf outf name w)) =
    draws (segment_core sam color (cvt_color img) (good_boxes (findall ''object'' doc)) (rng w))"
proof -
  obtain ms where r: "read_labels_from_xml (anf @ [splitext_root name @ ''.xml'']) w =
      (Inr (good_boxes (findall ''object'' doc)), w\<lparr>out := out w @ ms\<rparr>)"
    using read_labels_from_xml_doc [OF assms(2)] by blast
  have "imread (w\<lparr>out := out w @ ms\<rparr>) (imf @ [name]) = Some img" using assms(3) by simp
  note seg = segment_with_boxes_apply [OF this]
  from assms(2) have "path_exists w (anf @ [splitext_root name @ ''.xml''])" by (simp add: path_exists_def)
  with assms(1) r show ?thesis
    by (simp add: process_file_def seg Let_def put_node_def split: option.splits)
qed

text \<open>
  C27: \<open>segment_with_boxes\<close> prints that the result was saved even when
  \<open>cv2.imwrite\<close> could not write it: the store is left as it was.
\<close>

theorem segment_with_boxes_unwritten_reported:
  assumes "imread w ip = Some img" and "open_error w op \<noteq> None"
  shows "fst (segment_with_boxes sam color ip bs op w) = Inr () \<and>
         fs (snd (segment_with_boxes sam color ip bs op w)) = fs w \<and>
         last (out (snd (segment_with_boxes sam color ip bs op w))) = ResultSaved op"
  using assms by (auto simp add: segment_with_boxes_apply Let_def)

text \<open>
  C9: the image \<open>segment_with_boxes\<close> writes has the shape of the image it
  read: whatever the boxes and the model's masks, the file at the output path
  is an \<open>h \<times> w\<close> image when the input is one and the path can be opened.
\<close>

theorem segment_with_boxes_output_shape:
  assumes "imread w ip = Some img" and "rect h wd img" and "open_error w op = None"
  shows "\<exists>img'. node_at (snd (segment_with_boxes sam color ip bs op w)) op = Some (File (Image img')) \<and>
           rect h wd img'"
proof -
  let ?s = "segment_core sam color (cvt_color img) bs (rng w)"
  have "rect h wd (cvt_color img)" using assms(2) by (simp add: cvt_color_def grid_simps)
  then have "rect h wd (cvt_color (ov ?s))"
    unfolding segment_core_def by (simp add: seg_loop_rect cvt_color_def grid_simps)
  moreover have "op \<noteq> []" using open_error_None [OF assms(3)] by blast
  ultimately show ?thesis
    using assms(3) by (simp add: segment_with_boxes_apply [OF assms(1)] Let_def open_error_out_rng)
qed


text \<open>
  C11: one image never stops the folder: whatever happens while an image is
  read, segmented or written, the loop body returns normally.
\<close>

theorem process_file_never_raises: "fst (process_file sam color imf anf outf name w) = Inr ()"
  by (simp add: process_file_def Let_def catchE_print_Inr print_apply)

text \<open>
  C12: an image whose annotation file is missing is skipped at line 99: the
  message is printed and nothing else changes.
\<close>

theorem process_file_missing_label:
  assumes "ends_with name ''.jpg'' \<or> ends_with name ''.png''"
    and "\<not> path_exists w (anf @ [splitext_root name @ ''.xml''])"
  shows "process_file sam color imf anf outf name w =
           (Inr (), w\<lparr>out := out w @ [LabelFileNotFound (anf @ [splitext_root name @ ''.xml''])]\<rparr>)"
  using assms by (simp add: process_file_def Let_def print_apply)

text \<open>
  C13: an image \<open>cv2.imread\<close> cannot read: \<open>load_image\<close> raises
  \<open>FileNotFoundError\<close>, the handler of line 106 prints it after what the
  reader printed, and the store and the random stream are left as they were.
\<close>

theorem process_file_unreadable_image:
  assumes "ends_with name ''.jpg'' \<or> ends_with name ''.png''"
    and "path_exists w (anf @ [splitext_root name @ ''.xml''])"
    and "imread w (imf @ [name]) = None"
  shows "\<exists>ms. process_file sam color imf anf outf name w =
           (Inr (), w\<lparr>out := out w @ ms @ [FileError name FileNotFoundError]\<rparr>)"
proof -
  obtain bs ms where r: "read_labels_from_xml (anf @ [splitext_root name @ ''.xml'']) w = (Inr bs, w\<lparr>out := out w @ ms\<rparr>)"
    using read_labels_from_xml_shape by blast
  have "imread (w\<lparr>out := out w @ ms\<rparr>) (imf @ [name]) = None" using assms(3) by simp
  then have "segment_with_boxes sam color (imf @ [name]) bs (outf @ [name]) (w\<lparr>out := out w @ ms\<rparr>) =
      (Inl FileNotFoundError, w\<lparr>out := out w @ ms\<rparr>)"
    by (simp add: segment_with_boxes_def load_image_def)
  with assms(1,2) r have "process_file sam color imf anf outf name w =
      (Inr (), w\<lparr>out := out w @ ms @ [FileError name FileNotFoundError]\<rparr>)"
    by (simp add: process_file_def Let_def print_apply)
  then show ?thesis by blast
qed

text \<open>
  C14: the script's main block never raises, and the last line it prints is the
  success message or the general error message.
\<close>

theorem sam_main_total:
  "fst (sam_main sam color df outf w) = Inr () \<and>
   (last (out (snd (sam_main sam color df outf w))) = AllProcessed \<or>
    (\<exists>e. last (out (snd (sam_main sam color df outf w))) = GeneralError e))"
  by (cases "process_folder sam color df outf w" rule: prod.exhaust; cases "fst (process_folder sam color df outf w)")
     (auto simp add: sam_main_def catchE_def bindE_def print_def)

text \<open>
  C24: the script never changes or removes an entry of the store outside the
  output folder: images and annotations stay as they were.
\<close>

theorem sam_main_keeps_inputs:
  assumes "\<not> prefix outf q" and "node_at w q = Some n"
  shows "node_at (snd (sam_main sam color df outf w)) q = Some n"
  using keeps_outside_sam_main [of outf sam color df] assms by (simp add: keeps_outside_def)

theorem process_file_writes_overlay_witness:
  "node_at (snd (process_file ex_sam (\<lambda>n. (100, 100, 100)) [''d'', ''JPEGImages''] [''d'', ''Annotations''] [''o''] ''a.jpg'' ex_world))
     [''o'', ''a.jpg''] = Some (File (Image [[(50, 51, 51), (4, 5, 6)]]))"
proof -
  define doc where "doc = Elem ''annotation'' None [Elem ''object'' None [Elem ''bndbox'' None
        [Elem ''xmin'' (Some ''0'') [], Elem ''ymin'' (Some ''0'') [], Elem ''xmax'' (Some ''1'') [], Elem ''ymax'' (Some ''1'') []]]]"
  have h1: "ends_with ''a.jpg'' ''.jpg'' \<or> ends_with ''a.jpg'' ''.png''" by (simp add: ends_with_def)
  have h2: "node_at ex_world ([''d'', ''Annotations''] @ [splitext_root ''a.jpg'' @ ''.xml'']) = Some (File (XmlDoc doc))"
    by (simp add: ex_world_def node_at_def splitext_root_def doc_def)
  have h3: "imread ex_world ([''d'', ''JPEGImages''] @ [''a.jpg'']) = Some [[(1, 2, 3), (4, 5, 6)]]"
    by (simp add: ex_world_def node_at_def imread_def)
  have h4: "open_error ex_world ([''o''] @ [''a.jpg'']) = None"
    by (simp add: ex_world_def node_at_def open_error_def)
  have "cvt_color (ov (segment_core ex_sam (\<lambda>n. (100, 100, 100)) (cvt_color [[(1, 2, 3), (4, 5, 6)]])
          (good_boxes (findall ''object'' doc)) (rng ex_world))) = [[(50, 51, 51), (4, 5, 6)]]"
    unfolding doc_def by code_simp
  with process_file_writes_overlay [OF h1 h2 h3 h4, of ex_sam "\<lambda>n. (100, 100, 100)"] show ?thesis by simp
qed

theorem segment_with_boxes_unwritten_reported_witness:
  "fst (segment_with_boxes ex_sam (\<lambda>n. (100, 100, 100)) [''d'', ''JPEGImages'', ''a.jpg''] [] [''x'', ''a.jpg''] ex_world) = Inr () \<and>
   fs (snd (segment_with_boxes ex_sam (\<lambda>n. (100, 100, 100)) [''d'', ''JPEGImages'', ''a.jpg''] [] [''x'', ''a.jpg''] ex_world)) = fs ex_world \<and>
   last (out (snd (segment_with_boxes ex_sam (\<lambda>n. (100, 100, 100)) [''d'', ''JPEGImages'', ''a.jpg''] [] [''x'', ''a.jpg''] ex_world))) =
     ResultSaved [''x'', ''a.jpg'']"
  by (rule segment_with_boxes_unwritten_reported) (simp_all add: ex_world_def node_at_def imread_def open_error_def)

theorem segment_with_boxes_output_shape_witness:
  "\<exists>img'. node_at (snd (segment_with_boxes ex_sam (\<lambda>n. (100, 100, 100)) [''d'', ''JPEGImages'', ''a.jpg'']
       [Box (Fin 0) (Fin 0) (Fin 1) (Fin 1)] [''o'', ''a.jpg''] ex_world))
       [''o'', ''a.jpg''] = Some (File (Image img')) \<and> rect 1 2 img'"
proof -
  have h1: "imread ex_world [''d'', ''JPEGImages'', ''a.jpg''] = Some [[(1, 2, 3), (4, 5, 6)]]"
    by (simp add: ex_world_def node_at_def imread_def)
  have h2: "rect 1 2 [[(1::u8, 2::u8, 3::u8), (4, 5, 6)]]" by (simp add: rect_def)
  have h3: "open_error ex_world [''o'', ''a.jpg''] = None"
    by (simp add: ex_world_def node_at_def open_error_def)
  show ?thesis by (rule segment_with_boxes_output_shape [OF h1 h2 h3])
qed

theorem process_file_unreadable_image_witness:
  "\<exists>ms. process_file ex_sam (\<lambda>n. (100, 100, 100)) [''d'', ''JPEGImages''] [''d'', ''Annotations''] [''o''] ''b.jpg''
      (ex_world\<lparr>fs := fs ex_world @ [([''d'', ''Annotations'', ''b.xml''], File (Text ''x''))]\<rparr>) =
     (Inr (), (ex_world\<lparr>fs := fs ex_world @ [([''d'', ''Annotations'', ''b.xml''], File (Text ''x''))]\<rparr>)
        \<lparr>out := out (ex_world\<lparr>fs := fs ex_world @ [([''d'', ''Annotations'', ''b.xml''], File (Text ''x''))]\<rparr>) @ ms @
           [FileError ''b.jpg'' FileNotFoundError]\<rparr>)"
  by (rule process_file_unreadable_image)
    (simp_all add: ends_with_def path_exists_def splitext_root_def ex_world_def node_at_def imread_def)

theorem process_file_missing_label_witness:
  "process_file ex_sam (\<lambda>n. (100, 100, 100)) [''d'', ''JPEGImages''] [''d'', ''Annotations''] [''o''] ''c.jpg'' ex_world =
     (Inr (), ex_world\<lparr>out := out ex_world @ [LabelFileNotFound [''d'', ''Annotations'', ''c.xml'']]\<rparr>)"
proof -
  have r: "splitext_root ''c.jpg'' = ''c''" by (simp add: splitext_root_def)
  have h1: "ends_with ''c.jpg'' ''.jpg'' \<or> ends_with ''c.jpg'' ''.png''" by (simp add: ends_with_def)
  have h2: "\<not> path_exists ex_world ([''d'', ''Annotations''] @ [splitext_root ''c.jpg'' @ ''.xml''])"
    by (simp add: r path_exists_def ex_world_def node_at_def)
  show ?thesis using process_file_missing_label [OF h1 h2, of ex_sam "\<lambda>n. (100, 100, 100)" "[''d'', ''JPEGImages'']" "[''o'']"] r
    by simp
qed


theorem process_file_stream_witness:
  "rng (snd (process_file ex_sam (\<lambda>n. (100, 100, 100)) [''d'', ''JPEGImages''] [''d'', ''Annotations''] [''o''] ''a.jpg''
     (ex_world\<lparr>rng := 7\<rparr>))) =
   draws (segment_core ex_sam (\<lambda>n. (100, 100, 100)) (cvt_color [[(1, 2, 3), (4, 5, 6)]])
     [Box (Fin 0) (Fin 0) (Fin 1) (Fin 1)] 7)"
proof -
  define doc where "doc = Elem ''annotation'' None [Elem ''object'' None [Elem ''bndbox'' None
        [Elem ''xmin'' (Some ''0'') [], Elem ''ymin'' (Some ''0'') [], Elem ''xmax'' (Some ''1'') [], Elem ''ymax'' (Some ''1'') []]]]"
  have h1: "ends_with ''a.jpg'' ''.jpg'' \<or> ends_with ''a.jpg'' ''.png''" by (simp add: ends_with_def)
  have h2: "node_at (ex_world\<lparr>rng := 7\<rparr>) ([''d'', ''Annotations''] @ [splitext_root ''a.jpg'' @ ''.xml'']) =
      Some (File (XmlDoc doc))"
    by (simp add: ex_world_def node_at_def splitext_root_def doc_def)
  have h3: "imread (ex_world\<lparr>rng := 7\<rparr>) ([''d'', ''JPEGImages''] @ [''a.jpg'']) = Some [[(1, 2, 3), (4, 5, 6)]]"
    by (simp add: ex_world_def node_at_def imread_def)
  have b: "good_boxes (findall ''object'' doc) = [Box (Fin 0) (Fin 0) (Fin 1) (Fin 1)]"
    unfolding doc_def by code_simp
  from process_file_stream [OF h1 h2 h3, of ex_sam "\<lambda>n. (100, 100, 100)" "[''o'']"] b show ?thesis by simp
qed

theorem sam_main_keeps_inputs_witness:
  "node_at (snd (sam_main ex_sam (\<lambda>n. (100, 100, 100)) [''d''] [''o''] ex_world)) [''d'', ''JPEGImages'', ''a.jpg''] =
     Some (File (Image [[(1, 2, 3), (4, 5, 6)]]))"
  by (rule sam_main_keeps_inputs) (simp_all add: ex_world_def node_at_def)

end
