(* ===== verification/Rle.thy ===== *)
theory Rle
  imports Prelude
begin

text \<open>
  The run-length encoding of pycocotools that
  \<^verbatim>\<open>src/mask_to_polygon_transformation_script/toPoligon.py\<close> calls
  (\<open>mask_utils.encode\<close>, \<open>mask_utils.toBbox\<close>). The library is not part of the
  repository; its C routines \<open>rleEncode\<close>, \<open>rleDecode\<close> and \<open>rleToBbox\<close>
  (maskApi.c) are modelled loop by loop. A mask of \<open>h\<close> rows and \<open>w\<close> columns
  is read in column-major (Fortran) order, as \<open>np.asfortranarray\<close> lays it
  out; the counts alternate between runs of 0 and runs of 1, starting with 0.
\<close>

section \<open>Data\<close>

text \<open>The C struct \<open>RLE\<close>: height, width and the counts (\<open>m\<close> is their number).\<close>

record rle =
  rle_h :: nat
  rle_w :: nat
  rle_cnts :: "nat list"

text \<open>Byte \<open>t\<close> of a Fortran-ordered \<open>h \<times> w\<close> array is the cell of row \<open>t mod h\<close>, column \<open>t div h\<close>.\<close>

definition fortran_order :: "nat \<Rightarrow> nat \<Rightarrow> 'a grid \<Rightarrow> 'a list" where
  "fortran_order h w g = map (\<lambda>t. g ! (t mod h) ! (t div h)) [0..<h * w]"

text \<open>A mask of 0 and 1 bytes, as \<open>(mask == v).astype(np.uint8)\<close> produces.\<close>

definition binary :: "u8 list \<Rightarrow> bool" where
  "binary T \<longleftrightarrow> list_all (\<lambda>x. x = 0 \<or> x = 1) T"

section \<open>rleEncode and rleDecode\<close>

text \<open>
  The inner loop of \<open>rleEncode\<close>:
  \<open>for(j=0; j<a; j++) { if(T[j]!=p) { cnts[k++]=c; c=0; p=T[j]; } c++; } cnts[k++]=c;\<close>
  with \<open>p\<close> the current byte and \<open>c\<close> the length of the current run.
\<close>

fun rle_enc :: "u8 \<Rightarrow> nat \<Rightarrow> u8 list \<Rightarrow> nat list" where
  "rle_enc p c [] = [c]"
| "rle_enc p c (x # xs) = (if x \<noteq> p then c # rle_enc x 1 xs else rle_enc p (Suc c) xs)"

definition rle_encode :: "nat \<Rightarrow> nat \<Rightarrow> u8 list \<Rightarrow> rle" where
  "rle_encode h w T = \<lparr>rle_h = h, rle_w = w, rle_cnts = rle_enc 0 0 T\<rparr>"

text \<open>
  \<open>rleDecode\<close>: \<open>v=0; for each count: write cnts[j] copies of v; v=!v\<close>.
\<close>

fun rle_dec :: "u8 \<Rightarrow> nat list \<Rightarrow> u8 list" where
  "rle_dec v [] = []"
| "rle_dec v (c # cs) = replicate c v @ rle_dec (if v = 0 then 1 else 0) cs"

definition rle_decode :: "rle \<Rightarrow> u8 list" where
  "rle_decode R = rle_dec 0 (rle_cnts R)"

section \<open>rleToBbox\<close>

text \<open>
  The accumulator of \<open>rleToBbox\<close>: \<open>(xs, xe, ys, ye)\<close>, the least and greatest
  column and row seen so far.
\<close>

type_synonym bbacc = "nat \<times> nat \<times> nat \<times> nat"

text \<open>
  The loop of \<open>rleToBbox\<close> over the counts:
  \<^verbatim>\<open>cc+=cnts[j]; t=cc-j%2; y=t%h; x=(t-y)/h;
if(j%2==0) xp=x; else if(xp<x) { ys=0; ye=h-1; }
xs=umin(xs,x); xe=umax(xe,x); ys=umin(ys,y); ye=umax(ye,y);\<close>
  At an even \<open>j\<close> the pixel \<open>t\<close> is the first of the next run of 1s, at an odd
  \<open>j\<close> the last one; a run that wraps into a later column covers every row.
\<close>

primrec bbox_loop :: "nat \<Rightarrow> nat \<Rightarrow> nat \<Rightarrow> nat \<Rightarrow> bbacc \<Rightarrow> nat list \<Rightarrow> bbacc" where
  "bbox_loop h j cc xp acc [] = acc"
| "bbox_loop h j cc xp acc (c # cnts) =
     (let cc' = cc + c; t = cc' - j mod 2; y = t mod h; x = (t - y) div h;
          full = (j mod 2 \<noteq> 0 \<and> xp < x);
          xp' = (if j mod 2 = 0 then x else xp)
      in case acc of (xs, xe, ys, ye) \<Rightarrow>
           bbox_loop h (Suc j) cc' xp'
             (min xs x, max xe x, min (if full then 0 else ys) y, max (if full then h - 1 else ye) y) cnts)"

text \<open>
  \<open>rleToBbox\<close> for one RLE: \<open>m=((siz)(m/2))*2\<close> drops a trailing run of 0s; no
  run of 1s gives the box \<open>[0, 0, 0, 0]\<close>; otherwise the box is
  \<open>[xs, ys, xe-xs+1, ye-ys+1]\<close>, in the order \<open>toBbox\<close> returns it.
\<close>

definition rle_to_bbox :: "rle \<Rightarrow> nat \<times> nat \<times> nat \<times> nat" where
  "rle_to_bbox R =
     (let h = rle_h R; w = rle_w R; m = length (rle_cnts R) div 2 * 2 in
      if m = 0 then (0, 0, 0, 0)
      else (case bbox_loop h 0 0 0 (w, 0, h, 0) (take m (rle_cnts R)) of
              (xs, xe, ys, ye) \<Rightarrow> (xs, ys, xe - xs + 1, ye - ys + 1)))"

section \<open>The bounding box the encoding stands for\<close>

text \<open>
  The pixels of value 1 of an \<open>h \<times> w\<close> mask as \<open>(row, column)\<close> pairs, and the
  smallest axis-aligned box \<open>(x, y, width, height)\<close> that holds them all.
\<close>

definition mask_pixels :: "nat \<Rightarrow> nat \<Rightarrow> u8 grid \<Rightarrow> (nat \<times> nat) list" where
  "mask_pixels h w g = [(r, c). c \<leftarrow> [0..<w], r \<leftarrow> [0..<h], g ! r ! c = 1]"

definition bbox_of :: "(nat \<times> nat) list \<Rightarrow> nat \<times> nat \<times> nat \<times> nat" where
  "bbox_of P =
     (if P = [] then (0, 0, 0, 0)
      else (let X = set (map snd P); Y = set (map fst P) in
            (Min X, Min Y, Max X - Min X + 1, Max Y - Min Y + 1)))"

definition binary_grid :: "u8 grid \<Rightarrow> bool" where
  "binary_grid g \<longleftrightarrow> list_all (list_all (\<lambda>v. v = 0 \<or> v = 1)) g"

text \<open>Intermediate levels of the proof: one pixel, one run of 1s, the runs of a count list.\<close>

definition add_px :: "nat \<Rightarrow> nat \<Rightarrow> bbacc \<Rightarrow> bbacc" where
  "add_px h t acc = (case acc of (xs, xe, ys, ye) \<Rightarrow>
     (min xs (t div h), max xe (t div h), min ys (t mod h), max ye (t mod h)))"

definition run_step :: "nat \<Rightarrow> nat \<Rightarrow> nat \<Rightarrow> bbacc \<Rightarrow> bbacc" where
  "run_step h s e acc =
     (case add_px h s acc of (xs, xe, ys, ye) \<Rightarrow>
        add_px h e (if s div h < e div h then (xs, xe, 0, h - 1) else (xs, xe, ys, ye)))"

fun bbox_runs :: "nat \<Rightarrow> nat \<Rightarrow> bbacc \<Rightarrow> nat list \<Rightarrow> bbacc" where
  "bbox_runs h cc acc (z # n # rest) = bbox_runs h (cc + z + n) (run_step h (cc + z) (cc + z + n - 1) acc) rest"
| "bbox_runs h cc acc cs = acc"

fun ones_pos :: "nat \<Rightarrow> nat list \<Rightarrow> nat list" where
  "ones_pos cc (z # n # rest) = [cc + z..<cc + z + n] @ ones_pos (cc + z + n) rest"
| "ones_pos cc cs = []"

definition pos1 :: "nat \<Rightarrow> u8 list \<Rightarrow> nat list" where
  "pos1 cc L = [t \<leftarrow> [cc..<cc + length L]. L ! (t - cc) = 1]"

section \<open>The string form of the counts\<close>

text \<open>
  \<open>mask_utils.encode\<close> returns the counts compressed by \<open>rleToString\<close>, a variant
  of LEB128 with 5 data bits per character, a continuation bit \<open>0x20\<close>, a sign
  bit \<open>0x10\<close> in the last character, and the offset 48 that keeps every
  character in \<open>'0'..'o'\<close>; from the fourth count on (\<open>i>2\<close>) the difference to
  the count two places back is stored. \<open>toBbox\<close> parses the string back with
  \<open>rleFrString\<close> first. In C, \<open>x & 0x1f\<close> of the signed \<open>long x\<close> is
  \<open>x mod 32\<close>, \<open>x >>= 5\<close> is \<open>x div 32\<close>, and or-ing bit fields that do not
  overlap is adding them; that is how the loops are written here.
\<close>

text \<open>
  The inner loop of \<open>rleToString\<close> for one value:
  \<open>c=x & 0x1f; x >>= 5; more=(c & 0x10) ? x!=-1 : x!=0; if(more) c |= 0x20; c+=48;\<close>
\<close>

function enc_num :: "int \<Rightarrow> string" where
  "enc_num x =
     (let c = x mod 32; x' = x div 32; more = (if 16 \<le> c then x' \<noteq> -1 else x' \<noteq> 0) in
      if more then char_of (nat (c + 32 + 48)) # enc_num x' else [char_of (nat (c + 48))])"
  by pat_completeness auto
termination
proof (relation "measure (\<lambda>x. nat \<bar>x\<bar>)")
  show "wf (measure (\<lambda>x. nat \<bar>x\<bar>))" by simp
next
  fix x c x' :: int and more :: bool
  assume c: "c = x mod 32" and x': "x' = x div 32"
    and more: "more = (if 16 \<le> c then x' \<noteq> -1 else x' \<noteq> 0)" and m: more
  have "x \<noteq> 0" and "x \<noteq> -1" using c x' more m by auto
  then show "(x', x) \<in> measure (\<lambda>x. nat \<bar>x\<bar>)" using x' by auto
qed


text \<open>\<open>rleToString\<close>: \<open>x=cnts[i]; if(i>2) x-=cnts[i-2];\<close>, then the characters of \<open>x\<close>.\<close>

definition rle_to_string :: "nat list \<Rightarrow> string" where
  "rle_to_string cnts =
     concat (map (\<lambda>i. enc_num (int (cnts ! i) - (if 2 < i then int (cnts ! (i - 2)) else 0))) [0..<length cnts])"

text \<open>
  \<open>rleFrString\<close>. Its two nested loops are run here as one loop over the
  characters: \<open>x |= (c & 0x1f) << 5*k\<close> while \<open>c & 0x20\<close>; at the last
  character of a value the sign is extended (\<open>x |= -1 << 5*k\<close>), the count two
  places back is added from the third value on (\<open>m>2\<close>), and the value is
  stored as \<open>uint\<close>, that is modulo \<open>2^32\<close>.
\<close>

definition push_count :: "nat list \<Rightarrow> int \<Rightarrow> nat list" where
  "push_count cnts x =
     (let m = length cnts; x' = (if 2 < m then x + int (cnts ! (m - 2)) else x) in cnts @ [nat (x' mod 2 ^ 32)])"

fun fr_chars :: "int \<Rightarrow> nat \<Rightarrow> nat list \<Rightarrow> string \<Rightarrow> nat list" where
  "fr_chars x k cnts [] = cnts"
| "fr_chars x k cnts (ch # s) =
     (let c = int (of_char ch) - 48; x' = x + c mod 32 * 2 ^ (5 * k) in
      if c div 32 mod 2 = 1 then fr_chars x' (Suc k) cnts s
      else fr_chars 0 0 (push_count cnts (if c div 16 mod 2 = 1 then x' - 2 ^ (5 * Suc k) else x')) s)"

definition rle_fr_string :: "nat \<Rightarrow> nat \<Rightarrow> string \<Rightarrow> rle" where
  "rle_fr_string h w s = \<lparr>rle_h = h, rle_w = w, rle_cnts = fr_chars 0 0 [] s\<rparr>"

section \<open>Lemmas on the encoder\<close>

lemma binary_Cons [simp]: "binary (x # xs) \<longleftrightarrow> (x = 0 \<or> x = 1) \<and> binary xs"
  by (simp add: binary_def)

lemma binary_Nil [simp]: "binary []"
  by (simp add: binary_def)

lemma rle_dec_enc:
  assumes "binary T" and "p = 0 \<or> p = 1"
  shows "rle_dec p (rle_enc p c T) = replicate c p @ T"
  using assms
proof (induction T arbitrary: p c)
  case Nil
  then show ?case by simp
next
  case (Cons x xs)
  show ?case
  proof (cases "x = p")
    case True
    with Cons show ?thesis by (simp add: replicate_app_Cons_same)
  next
    case False
    with Cons.prems have "x = (if p = 0 then 1 else 0)" by auto
    with Cons False show ?thesis by simp
  qed
qed

lemma sum_list_rle_enc: "sum_list (rle_enc p c T) = c + length T"
  by (induction T arbitrary: p c) simp_all

lemma rle_enc_pos: "0 < c \<Longrightarrow> \<forall>k\<in>set (rle_enc p c T). 0 < k"
  by (induction T arbitrary: p c) auto

lemma rle_enc_tl_pos:
  assumes "rle_enc p c T = k # ks"
  shows "\<forall>k'\<in>set ks. 0 < k'"
proof (cases T)
  case Nil
  with assms show ?thesis by simp
next
  case (Cons x xs)
  show ?thesis
  proof (cases "x = p")
    case True
    with assms Cons have "rle_enc p (Suc c) xs = k # ks" by simp
    with rle_enc_pos [of "Suc c" p xs] show ?thesis by simp
  next
    case False
    with assms Cons have "ks = rle_enc x 1 xs" by simp
    with rle_enc_pos [of 1 x xs] show ?thesis by simp
  qed
qed

lemma rle_enc_nonempty [simp]: "rle_enc p c T \<noteq> []"
  by (induction T arbitrary: p c) simp_all

section \<open>rleToBbox computes the bounding box\<close>

text \<open>Two iterations of the C loop, from an even index, handle one run of 0s and one run of 1s.\<close>

lemma bbox_loop_two:
  assumes "even j"
  shows "bbox_loop h j cc xp acc (z # n # rest) =
           bbox_loop h (Suc (Suc j)) (cc + z + n) ((cc + z) div h) (run_step h (cc + z) (cc + z + n - 1) acc) rest"
proof -
  obtain xs xe ys ye where acc: "acc = (xs, xe, ys, ye)" by (cases acc)
  from assms have j: "j mod 2 = 0" "Suc j mod 2 = 1" by presburger+
  show ?thesis
    unfolding bbox_loop.simps Let_def acc run_step_def add_px_def
    by (simp only: div_of_minus_mod j prod.case) simp
qed

lemma bbox_loop_runs:
  "even j \<Longrightarrow> even (length cs) \<Longrightarrow> bbox_loop h j cc xp acc cs = bbox_runs h cc acc cs"
proof (induction h cc acc cs arbitrary: j xp rule: bbox_runs.induct)
  case (1 h cc acc z n rest)
  have "bbox_loop h j cc xp acc (z # n # rest) =
      bbox_loop h (Suc (Suc j)) (cc + z + n) ((cc + z) div h) (run_step h (cc + z) (cc + z + n - 1) acc) rest"
    using "1.prems"(1) by (rule bbox_loop_two)
  also have "\<dots> = bbox_runs h (cc + z + n) (run_step h (cc + z) (cc + z + n - 1) acc) rest"
    using "1.prems" by (intro "1.IH") simp_all
  finally show ?case by (simp only: bbox_runs.simps)
qed simp_all

lemma run_step_extend:
  assumes "0 < h" and "s \<le> e" and "ye < h"
  shows "add_px h (Suc e) (run_step h s e (xs, xe, ys, ye)) = run_step h s (Suc e) (xs, xe, ys, ye)"
proof -
  have ab: "s div h \<le> e div h" using assms(2) by (simp add: div_le_mono)
  have r: "s mod h < h" "e mod h < h" using assms(1) by simp_all
  show ?thesis
  proof (cases rule: suc_div_mod_cases [OF assms(1), of e])
    case 1
    show ?thesis
    proof (cases "s div h < e div h")
      case True
      with 1 ab r assms show ?thesis by (simp add: run_step_def add_px_def)
    next
      case False
      have "s mod h \<le> h - 1" "ye \<le> h - 1" using r(1) assms(3) by linarith+
      with False 1 ab assms show ?thesis by (simp add: run_step_def add_px_def max_def)
    qed
  next
    case 2
    show ?thesis
    proof (cases "s div h < e div h")
      case True
      with 2 ab r assms show ?thesis by (simp add: run_step_def add_px_def)
    next
      case False
      with ab have "s div h = e div h" by simp
      with assms(2) have "s mod h \<le> e mod h" by (rule same_col_mod_le)
      with False 2 ab r assms show ?thesis by (simp add: run_step_def add_px_def)
    qed
  qed
qed

lemma pos1_append: "pos1 cc (A @ B) = pos1 cc A @ pos1 (cc + length A) B"
proof -
  have "[cc..<cc + length (A @ B)] = [cc..<cc + length A] @ [cc + length A..<cc + length A + length B]"
    using upt_add_eq_append [of cc "cc + length A" "length B"] by (simp add: add.assoc)
  moreover have "[t \<leftarrow> [cc..<cc + length A]. (A @ B) ! (t - cc) = 1] = [t \<leftarrow> [cc..<cc + length A]. A ! (t - cc) = 1]"
    by (rule filter_cong) (auto simp add: nth_append)
  moreover have "[t \<leftarrow> [cc + length A..<cc + length A + length B]. (A @ B) ! (t - cc) = 1] =
      [t \<leftarrow> [cc + length A..<cc + length A + length B]. B ! (t - (cc + length A)) = 1]"
    by (rule filter_cong) (auto simp add: nth_append)
  ultimately show ?thesis by (simp add: pos1_def)
qed

lemma pos1_Nil [simp]: "pos1 cc [] = []"
  by (simp add: pos1_def)

lemma pos1_replicate_0 [simp]: "pos1 cc (replicate z (0::u8)) = []"
  by (auto simp add: pos1_def filter_empty_conv)

lemma pos1_replicate_1 [simp]: "pos1 cc (replicate n (1::u8)) = [cc..<cc + n]"
  by (auto simp add: pos1_def filter_id_conv)

lemma ones_pos_pos1: "ones_pos cc cs = pos1 cc (rle_dec 0 cs)"
proof (induction cc cs rule: ones_pos.induct)
  case (1 cc z n rest)
  then show ?case by (simp add: pos1_append add.assoc)
qed simp_all

lemma ones_pos_take_even: "ones_pos cc (take (length cs div 2 * 2) cs) = ones_pos cc cs"
proof (induction cc cs rule: ones_pos.induct)
  case (1 cc z n rest)
  have "length (z # n # rest) div 2 * 2 = Suc (Suc (length rest div 2 * 2))" by simp
  with 1 show ?case by simp
qed simp_all

lemma add_px_idem: "add_px h t (add_px h t acc) = add_px h t acc"
  by (cases acc) (simp add: add_px_def)

lemma run_step_fold:
  assumes "0 < h" and "s \<le> e" and "ye < h"
  shows "run_step h s e (xs, xe, ys, ye) = fold (add_px h) [s..<Suc e] (xs, xe, ys, ye)"
  using assms(2)
proof (induction e)
  case 0
  then show ?case by (simp add: run_step_def add_px_idem split: prod.splits)
next
  case (Suc e)
  show ?case
  proof (cases "s = Suc e")
    case True
    then show ?thesis by (simp add: run_step_def add_px_idem split: prod.splits)
  next
    case False
    with Suc.prems have "s \<le> e" by simp
    then have "fold (add_px h) [s..<Suc (Suc e)] (xs, xe, ys, ye) = add_px h (Suc e) (run_step h s e (xs, xe, ys, ye))"
      using Suc.IH by simp
    also have "\<dots> = run_step h s (Suc e) (xs, xe, ys, ye)"
      using assms(1) \<open>s \<le> e\<close> assms(3) by (rule run_step_extend)
    finally show ?thesis ..
  qed
qed

lemma fold_add_px: "fold (add_px h) L (a, b, c, d) =
  (fold min (map (\<lambda>t. t div h) L) a, fold max (map (\<lambda>t. t div h) L) b,
   fold min (map (\<lambda>t. t mod h) L) c, fold max (map (\<lambda>t. t mod h) L) d)"
  by (induction L arbitrary: a b c d) (simp_all add: add_px_def min.commute max.commute)

lemma fold_max_mod_less: "0 < h \<Longrightarrow> d < h \<Longrightarrow> fold max (map (\<lambda>t. t mod h) L) d < (h::nat)"
  by (induction L arbitrary: d) simp_all

lemma bbox_runs_fold:
  "0 < h \<Longrightarrow> \<forall>k\<in>set (tl cs). 0 < k \<Longrightarrow> snd (snd (snd acc)) < h \<Longrightarrow>
   bbox_runs h cc acc cs = fold (add_px h) (ones_pos cc cs) acc"
proof (induction h cc acc cs rule: bbox_runs.induct)
  case (1 h cc acc z n rest)
  obtain a b c d where acc: "acc = (a, b, c, d)" by (cases acc)
  from "1.prems" have n: "0 < n" and rest: "\<forall>k\<in>set (tl rest). 0 < k"
    using set_tl_subset [of rest] by auto
  from "1.prems" acc have "d < h" by simp
  with "1.prems"(1) n have step: "run_step h (cc + z) (cc + z + n - 1) acc = fold (add_px h) [cc + z..<cc + z + n] acc"
    using run_step_fold [of h "cc + z" "cc + z + n - 1" d a b c] acc by simp
  have "snd (snd (snd (fold (add_px h) [cc + z..<cc + z + n] acc))) < h"
    using fold_max_mod_less [OF "1.prems"(1) \<open>d < h\<close>] by (simp add: acc fold_add_px)
  with "1.IH" [OF "1.prems"(1) rest] step show ?case by simp
qed simp_all

lemma ones_pos_nonempty:
  assumes "rle_enc p c T = z # n # rest"
  shows "ones_pos cc (z # n # rest) \<noteq> []"
  using rle_enc_tl_pos [OF assms] by simp

lemma rle_to_bbox_fold:
  assumes "0 < h" and "binary T"
  shows "rle_to_bbox (rle_encode h w T) =
    (let L = pos1 0 T in
     if L = [] then (0, 0, 0, 0)
     else (case fold (add_px h) L (w, 0, h, 0) of (xs, xe, ys, ye) \<Rightarrow> (xs, ys, xe - xs + 1, ye - ys + 1)))"
proof -
  let ?cs = "rle_enc 0 0 T"
  let ?m = "length ?cs div 2 * 2"
  have dec: "rle_dec 0 ?cs = T" using rle_dec_enc [OF assms(2), of 0 0] by simp
  have L: "pos1 0 T = ones_pos 0 ?cs" by (simp add: ones_pos_pos1 dec)
  show ?thesis
  proof (cases "?m = 0")
    case True
    then have "length ?cs < 2" by simp
    then have "ones_pos 0 ?cs = []" by (cases ?cs) auto
    with True L show ?thesis by (simp add: rle_to_bbox_def rle_encode_def)
  next
    case False
    then have "Suc (Suc 0) \<le> length ?cs" by simp
    then obtain z n rest where cs: "?cs = z # n # rest"
      by (auto simp add: Suc_le_length_iff)
    then have ne: "pos1 0 T \<noteq> []" using L ones_pos_nonempty [OF cs, of 0] by simp
    have tlpos: "\<forall>k\<in>set (tl (take ?m ?cs)). 0 < k"
      using rle_enc_tl_pos [OF cs] cs by (auto simp add: tl_take dest: in_set_takeD)
    have "?m \<le> length ?cs" by (rule div_times_less_eq_dividend)
    then have "length (take ?m ?cs) = ?m" by simp
    then have "bbox_loop h 0 0 0 (w, 0, h, 0) (take ?m ?cs) = bbox_runs h 0 (w, 0, h, 0) (take ?m ?cs)"
      by (intro bbox_loop_runs) simp_all
    also have "\<dots> = fold (add_px h) (ones_pos 0 (take ?m ?cs)) (w, 0, h, 0)"
      using assms(1) tlpos by (simp add: bbox_runs_fold)
    also have "\<dots> = fold (add_px h) (pos1 0 T) (w, 0, h, 0)"
      by (simp add: ones_pos_take_even L)
    finally show ?thesis using False ne by (simp add: rle_to_bbox_def rle_encode_def)
  qed
qed

section \<open>From the mask to its pixels\<close>

lemma length_fortran_order [simp]: "length (fortran_order h w g) = h * w"
  by (simp add: fortran_order_def)

lemma fortran_order_nth: "t < h * w \<Longrightarrow> fortran_order h w g ! t = g ! (t mod h) ! (t div h)"
  by (simp add: fortran_order_def)

lemma mult_index_bounds:
  assumes "(t::nat) < h * w"
  shows "t mod h < h" and "t div h < w"
proof -
  from assms have "0 < h" by (cases h) simp_all
  then show "t mod h < h" by simp
  from assms show "t div h < w" by (simp add: less_mult_imp_div_less mult.commute)
qed

lemma binary_fortran_order:
  assumes "rect h w g" and "binary_grid g"
  shows "binary (fortran_order h w g)"
  unfolding binary_def list_all_length
proof (intro allI impI)
  fix t assume "t < length (fortran_order h w g)"
  then have t: "t < h * w" by simp
  then have r: "t mod h < length g" and c: "t div h < length (g ! (t mod h))"
    using assms(1) mult_index_bounds [OF t] by (simp_all add: rect_def list_all_length)
  then have "g ! (t mod h) ! (t div h) \<in> set (g ! (t mod h))" and "g ! (t mod h) \<in> set g"
    by simp_all
  with assms(2) have "g ! (t mod h) ! (t div h) = 0 \<or> g ! (t mod h) ! (t div h) = 1"
    by (simp add: binary_grid_def list_all_iff)
  with t show "fortran_order h w g ! t = 0 \<or> fortran_order h w g ! t = 1"
    by (simp add: fortran_order_nth)
qed

lemma set_pos1_fortran:
  "set (pos1 0 (fortran_order h w g)) = {t. t < h * w \<and> g ! (t mod h) ! (t div h) = 1}"
  by (auto simp add: pos1_def fortran_order_nth)

lemma set_mask_pixels:
  "set (mask_pixels h w g) = (\<lambda>t. (t mod h, t div h)) ` {t. t < h * w \<and> g ! (t mod h) ! (t div h) = 1}"
proof (intro equalityI subsetI)
  fix p assume "p \<in> set (mask_pixels h w g)"
  then obtain r c where p: "p = (r, c)" and rc: "r < h" "c < w" "g ! r ! c = 1"
    by (auto simp add: mask_pixels_def)
  let ?t = "c * h + r"
  have "?t < h * w"
  proof -
    have "c * h + r < c * h + h" using rc(1) by simp
    also have "\<dots> = Suc c * h" by simp
    also have "\<dots> \<le> w * h" using rc(2) by (intro mult_le_mono1) simp
    finally show ?thesis by (simp add: mult.commute)
  qed
  moreover have "?t mod h = r" and "?t div h = c" using rc(1) by simp_all
  ultimately show "p \<in> (\<lambda>t. (t mod h, t div h)) ` {t. t < h * w \<and> g ! (t mod h) ! (t div h) = 1}"
    using p rc(3) by (auto intro!: image_eqI [where x = ?t])
next
  fix p assume "p \<in> (\<lambda>t. (t mod h, t div h)) ` {t. t < h * w \<and> g ! (t mod h) ! (t div h) = 1}"
  then obtain t where "p = (t mod h, t div h)" and t: "t < h * w" and "g ! (t mod h) ! (t div h) = 1"
    by auto
  with mult_index_bounds [OF t] show "p \<in> set (mask_pixels h w g)"
    by (auto simp add: mask_pixels_def)
qed

lemma fold_min_Min: "fold min xs (a::nat) = Min (insert a (set xs))"
  using Min.set_eq_fold [of a xs] by simp

lemma fold_max_Max: "fold max xs (a::nat) = Max (insert a (set xs))"
  using Max.set_eq_fold [of a xs] by simp

lemma pos1_fortran_empty:
  "pos1 0 (fortran_order h w g) = [] \<longleftrightarrow> mask_pixels h w g = []"
proof -
  have "set (pos1 0 (fortran_order h w g)) = {} \<longleftrightarrow> set (mask_pixels h w g) = {}"
    by (simp only: set_pos1_fortran set_mask_pixels image_is_empty)
  then show ?thesis by simp
qed

lemma mask_pixels_coords:
  "set (map snd (mask_pixels h w g)) = set (map (\<lambda>t. t div h) (pos1 0 (fortran_order h w g)))"
  "set (map fst (mask_pixels h w g)) = set (map (\<lambda>t. t mod h) (pos1 0 (fortran_order h w g)))"
  by (simp_all only: set_map set_mask_pixels set_pos1_fortran image_image) simp_all

lemma Min_Max_insert_bounds:
  fixes X Y :: "nat set"
  assumes "finite X" "X \<noteq> {}" "finite Y" "Y \<noteq> {}" "\<forall>x\<in>X. x < w" "\<forall>y\<in>Y. y < h"
  shows "(Min (insert w X), Max (insert 0 X), Min (insert h Y), Max (insert 0 Y)) = (Min X, Max X, Min Y, Max Y)"
  using assms by (simp add: Min_insert_above Max_insert_0)

lemma pos1_fortran_bounds:
  "t \<in> set (pos1 0 (fortran_order h w g)) \<Longrightarrow> t div h < w \<and> t mod h < h"
  using mult_index_bounds [of t h w] by (simp add: set_pos1_fortran)

section \<open>The bounding box of an encoded mask\<close>

text \<open>
  \<open>toBbox(encode(m))\<close> is the smallest box around the pixels of value 1:
  for a binary \<open>h \<times> w\<close> mask, encoding it in Fortran order with \<open>rleEncode\<close> and
  running \<open>rleToBbox\<close> gives \<open>(x, y, width, height)\<close> of the least box holding
  every pixel of value 1, and \<open>(0, 0, 0, 0)\<close> when there is none.
\<close>

lemma rle_to_bbox_correct:
  assumes "rect h w g" and "binary_grid g"
  shows "rle_to_bbox (rle_encode h w (fortran_order h w g)) = bbox_of (mask_pixels h w g)"
proof (cases "h = 0")
  case True
  then show ?thesis
    by (simp add: rle_to_bbox_def rle_encode_def fortran_order_def mask_pixels_def bbox_of_def)
next
  case False
  let ?T = "fortran_order h w g"
  let ?L = "pos1 0 ?T"
  let ?X = "set (map (\<lambda>t. t div h) ?L)" and ?Y = "set (map (\<lambda>t. t mod h) ?L)"
  have bin: "binary ?T" using assms by (rule binary_fortran_order)
  from False have h: "0 < h" by simp
  show ?thesis
  proof (cases "?L = []")
    case True
    then show ?thesis
      using rle_to_bbox_fold [OF h bin, of w] by (simp add: pos1_fortran_empty bbox_of_def)
  next
    case ne: False
    then have P: "mask_pixels h w g \<noteq> []" by (simp add: pos1_fortran_empty)
    have fin: "finite ?X" "?X \<noteq> {}" "finite ?Y" "?Y \<noteq> {}" using ne by simp_all
    have lt: "\<forall>x\<in>?X. x < w" "\<forall>y\<in>?Y. y < h" using pos1_fortran_bounds by auto
    have F: "fold (add_px h) ?L (w, 0, h, 0) = (Min ?X, Max ?X, Min ?Y, Max ?Y)"
      by (simp only: fold_add_px fold_min_Min fold_max_Max) (rule Min_Max_insert_bounds [OF fin lt])
    have "rle_to_bbox (rle_encode h w ?T) = (Min ?X, Min ?Y, Max ?X - Min ?X + 1, Max ?Y - Min ?Y + 1)"
      using rle_to_bbox_fold [OF h bin, of w] by (simp only: Let_def ne if_False F prod.case)
    moreover have "bbox_of (mask_pixels h w g) = (Min ?X, Min ?Y, Max ?X - Min ?X + 1, Max ?Y - Min ?Y + 1)"
      unfolding bbox_of_def by (simp only: P if_False Let_def mask_pixels_coords)
    ultimately show ?thesis by (simp only:)
  qed
qed

lemma rle_to_bbox_correct_example:
  "rle_to_bbox (rle_encode 3 3 (fortran_order 3 3 [[0, 0, 0], [0, 1, 1], [0, 1, 0]])) = (1, 1, 2, 2)"
proof -
  have "rect 3 3 [[0, 0, 0], [0, 1, 1], [0, 1, 0 :: u8]]" and "binary_grid [[0, 0, 0], [0, 1, 1], [0, 1, 0 :: u8]]"
    by (simp_all add: rect_def binary_grid_def)
  then have "rle_to_bbox (rle_encode 3 3 (fortran_order 3 3 [[0, 0, 0], [0, 1, 1], [0, 1, 0]])) =
      bbox_of (mask_pixels 3 3 [[0, 0, 0], [0, 1, 1], [0, 1, 0]])"
    by (rule rle_to_bbox_correct)
  also have "\<dots> = (1, 1, 2, 2)" by code_simp
  finally show ?thesis .
qed

section \<open>The string form of the counts: round trip\<close>

declare enc_num.simps [simp del]

lemma of_char_char_of_small: "0 \<le> v \<Longrightarrow> v < 256 \<Longrightarrow> of_char (char_of (nat v) :: char) = nat v"
  by (simp add: of_char_of)

lemma split_mod32: "(y::int) mod 32 * 2 ^ (5 * k) + y div 32 * 2 ^ (5 * Suc k) = y * 2 ^ (5 * k)"
proof -
  have "y * 2 ^ (5 * k) = (y mod 32 + 32 * (y div 32)) * 2 ^ (5 * k)" by simp
  also have "\<dots> = y mod 32 * 2 ^ (5 * k) + y div 32 * 2 ^ (5 * Suc k)"
    by (simp only: distrib_right power_add mult_Suc_right) simp
  finally show ?thesis by simp
qed

lemma fr_chars_enc_num:
  "fr_chars acc k cnts (enc_num y @ rest) = fr_chars 0 0 (push_count cnts (acc + y * 2 ^ (5 * k))) rest"
proof (induction y arbitrary: acc k rule: enc_num.induct)
  case (1 y)
  let ?c = "y mod 32" and ?y' = "y div 32"
  have cb: "0 \<le> ?c" "?c < 32" by simp_all
  show ?case
  proof (cases "if 16 \<le> ?c then ?y' \<noteq> -1 else ?y' \<noteq> 0")
    case True
    then have e: "enc_num y = char_of (nat (?c + 32 + 48)) # enc_num ?y'"
      by (subst enc_num.simps) (simp add: Let_def)
    have ch: "int (of_char (char_of (nat (?c + 32 + 48)) :: char)) - 48 = ?c + 32"
      using cb by (simp add: of_char_char_of_small)
    have "fr_chars acc k cnts (enc_num y @ rest) = fr_chars (acc + ?c * 2 ^ (5 * k)) (Suc k) cnts (enc_num ?y' @ rest)"
      using cb by (simp add: e ch Let_def)
    also have "\<dots> = fr_chars 0 0 (push_count cnts (acc + ?c * 2 ^ (5 * k) + ?y' * 2 ^ (5 * Suc k))) rest"
      using "1.IH" [OF refl refl refl True] by (simp add: Let_def)
    also have "acc + ?c * 2 ^ (5 * k) + ?y' * 2 ^ (5 * Suc k) = acc + y * 2 ^ (5 * k)"
      by (simp only: add.assoc split_mod32)
    finally show ?thesis .
  next
    case False
    then have e: "enc_num y = [char_of (nat (?c + 48))]"
      by (subst enc_num.simps) (simp add: Let_def)
    have ch: "int (of_char (char_of (nat (?c + 48)) :: char)) - 48 = ?c"
      using cb by (simp add: of_char_char_of_small)
    have V: "(if ?c div 16 mod 2 = 1 then acc + ?c * 2 ^ (5 * k) - 2 ^ (5 * Suc k) else acc + ?c * 2 ^ (5 * k)) =
        acc + y * 2 ^ (5 * k)"
    proof (cases "16 \<le> ?c")
      case True
      with False have "?y' = -1" by simp
      then have eq: "acc + ?c * 2 ^ (5 * k) - 2 ^ (5 * Suc k) = acc + (?c * 2 ^ (5 * k) + ?y' * 2 ^ (5 * Suc k))"
        by simp
      from True cb have d: "?c div 16 mod 2 = 1" by simp
      show ?thesis by (simp only: d eq simp_thms if_True split_mod32)
    next
      case small: False
      with False have "?y' = 0" by simp
      then have eq: "acc + ?c * 2 ^ (5 * k) = acc + (?c * 2 ^ (5 * k) + ?y' * 2 ^ (5 * Suc k))"
        by simp
      from small cb have d: "?c div 16 mod 2 = 0" by simp
      show ?thesis by (simp only: d eq zero_neq_one if_False split_mod32)
    qed
    have "fr_chars acc k cnts (enc_num y @ rest) = fr_chars 0 0 (push_count cnts (if ?c div 16 mod 2 = 1 then acc + ?c * 2 ^ (5 * k) - 2 ^ (5 * Suc k) else acc + ?c * 2 ^ (5 * k))) rest"
      using cb by (simp add: e ch Let_def)
    then show ?thesis by (simp only: V)
  qed
qed


lemma push_count_take:
  assumes "i < length cnts" and "\<forall>c\<in>set cnts. c < 2 ^ 32"
  shows "push_count (take i cnts) (int (cnts ! i) - (if 2 < i then int (cnts ! (i - 2)) else 0)) = take (Suc i) cnts"
proof -
  have "cnts ! i \<in> set cnts" using assms(1) by simp
  with assms(2) have lt: "int (cnts ! i) < 2 ^ 32" by simp
  have "nat (int (cnts ! i) mod 2 ^ 32) = cnts ! i" using lt by simp
  with assms(1) show ?thesis
    by (simp add: push_count_def Let_def take_Suc_conv_app_nth min_def)
qed

lemma fr_chars_from:
  assumes "i \<le> length cnts" and "\<forall>c\<in>set cnts. c < 2 ^ 32"
  shows "fr_chars 0 0 (take i cnts)
     (concat (map (\<lambda>i. enc_num (int (cnts ! i) - (if 2 < i then int (cnts ! (i - 2)) else 0))) [i..<length cnts]))
   = cnts"
  using assms(1)
proof (induction "length cnts - i" arbitrary: i)
  case 0
  then show ?case by simp
next
  case (Suc d)
  then have i: "i < length cnts" by simp
  then have "[i..<length cnts] = i # [Suc i..<length cnts]" by (simp add: upt_conv_Cons)
  then show ?case
    using Suc.hyps(1) [of "Suc i"] Suc.hyps(2) i
    by (simp add: fr_chars_enc_num push_count_take [OF i assms(2)])
qed

lemma enc_num_ascii: "ch \<in> set (enc_num y) \<Longrightarrow> 48 \<le> (of_char ch :: nat) \<and> (of_char ch :: nat) < 112"
proof (induction y rule: enc_num.induct)
  case (1 y)
  have cb: "0 \<le> y mod 32" "y mod 32 < 32" by simp_all
  from "1.prems" consider (more) "ch = char_of (nat (y mod 32 + 32 + 48))"
    | (rest) "ch \<in> set (enc_num (y div 32))" "if 16 \<le> y mod 32 then y div 32 \<noteq> -1 else y div 32 \<noteq> 0"
    | (last) "ch = char_of (nat (y mod 32 + 48))"
    by (subst (asm) enc_num.simps) (auto simp add: Let_def split: if_splits)
  then show ?case
  proof cases
    case more
    with cb show ?thesis by (simp add: of_char_char_of_small, arith)
  next
    case rest
    from "1.IH" [OF refl refl refl rest(2) rest(1)] show ?thesis .
  next
    case last
    with cb show ?thesis by (simp add: of_char_char_of_small, arith)
  qed
qed

text \<open>
  \<open>rleFrString\<close> inverts \<open>rleToString\<close>: parsing the string the encoder
  produced gives back the RLE, for counts that fit the C \<open>uint\<close>. So the
  detour of the converter through the string form (lines 62-64 of toPoligon.py)
  hands \<open>toBbox\<close> the counts \<open>rleEncode\<close> computed.
\<close>

lemma rle_string_roundtrip:
  assumes "\<forall>c\<in>set (rle_cnts R). c < 2 ^ 32"
  shows "rle_fr_string (rle_h R) (rle_w R) (rle_to_string (rle_cnts R)) = R"
  using fr_chars_from [of 0 "rle_cnts R"] assms by (simp add: rle_fr_string_def rle_to_string_def)

lemma rle_string_roundtrip_example:
  "rle_fr_string 2 3 (rle_to_string [1, 2, 40, 1, 2]) = \<lparr>rle_h = 2, rle_w = 3, rle_cnts = [1, 2, 40, 1, 2]\<rparr>"
  using rle_string_roundtrip [of "\<lparr>rle_h = 2, rle_w = 3, rle_cnts = [1, 2, 40, 1, 2]\<rparr>"] by simp

text \<open>
  Every character of the compressed counts is an ASCII character between
  \<open>'0'\<close> and \<open>'o'\<close>, so \<open>rle['counts'].decode('utf-8')\<close> and the
  \<open>str.encode\<close> inside \<open>toBbox\<close> leave it unchanged.
\<close>

lemma rle_to_string_ascii:
  "ch \<in> set (rle_to_string cnts) \<Longrightarrow> 48 \<le> (of_char ch :: nat) \<and> (of_char ch :: nat) < 112"
  by (auto simp add: rle_to_string_def dest: enc_num_ascii)

lemma rle_to_string_ascii_example:
  "rle_to_string [3, 40] = ''3X1'' \<and> (48::nat) \<le> of_char (CHR ''X'') \<and> (of_char (CHR ''X'') :: nat) < 112"
proof -
  have s: "rle_to_string [3, 40] = ''3X1''" by code_simp
  have "CHR ''X'' \<in> set (rle_to_string [3, 40])" by (simp add: s)
  from rle_to_string_ascii [OF this] s show ?thesis by simp
qed

end
