(* ===== verification/Mask_Labels.thy ===== *)
theory Mask_Labels
  imports Rle
begin

text \<open>
  The per-mask work of \<^verbatim>\<open>src/mask_to_polygon_transformation_script/toPoligon.py\<close>,
  \<open>convert_mask_to_polygons\<close> (lines 45-67): for every entry of the class mapping,
  the binary mask of the pixels of that value, the skip of an empty class, the
  bounding box through pycocotools (theory \<open>Rle\<close>) and the text of the label line.
  The file handling around it is in theory \<open>Mask_Folder\<close>.
\<close>

section \<open>Printing numbers\<close>

text \<open>\<open>str\<close> of a non-negative Python \<open>int\<close>: its decimal digits.\<close>

fun show_nat :: "nat \<Rightarrow> string" where
  "show_nat n = (if n < 10 then [char_of (48 + n)] else show_nat (n div 10) @ [char_of (48 + n mod 10)])"

definition show_int :: "int \<Rightarrow> string" where
  "show_int i = (if i < 0 then CHR ''-'' # show_nat (nat (- i)) else show_nat (nat i))"

text \<open>
  \<open>str\<close> of a \<open>float64\<close> with an integral value below \<open>10^16\<close> (all \<open>toBbox\<close>
  returns for an image): the digits followed by \<open>.0\<close>.
\<close>

definition show_float_nat :: "nat \<Rightarrow> string" where
  "show_float_nat n = show_nat n @ ''.0''"

section \<open>The converter\<close>

text \<open>Line 57: \<open>(mask == pixel_value).astype(np.uint8)\<close>.\<close>

definition binary_mask :: "u8 grid \<Rightarrow> int \<Rightarrow> u8 grid" where
  "binary_mask g v = grid_map (\<lambda>p. if uint p = v then 1 else 0) g"

text \<open>Line 58: \<open>binary_mask.sum()\<close> (numpy sums \<open>uint8\<close> in a wider integer).\<close>

definition mask_sum :: "u8 grid \<Rightarrow> nat" where
  "mask_sum b = sum_list (map (\<lambda>r. sum_list (map unat r)) b)"

text \<open>
  Lines 62-63: \<open>mask_utils.encode\<close> of the Fortran-ordered array (rows \<open>h\<close>,
  columns \<open>w\<close>) and \<open>rle['counts'].decode('utf-8')\<close>: the counts in their
  compressed string form.
\<close>

definition coco_counts :: "nat \<Rightarrow> nat \<Rightarrow> u8 grid \<Rightarrow> string" where
  "coco_counts h w b = rle_to_string (rle_cnts (rle_encode h w (fortran_order h w b)))"

text \<open>
  Line 64: \<open>mask_utils.toBbox(rle)\<close> parses the string back (\<open>rleFrString\<close>)
  and runs \<open>rleToBbox\<close>; the result is \<open>[x, y, width, height]\<close>.
\<close>

definition coco_bbox :: "nat \<Rightarrow> nat \<Rightarrow> u8 grid \<Rightarrow> nat \<times> nat \<times> nat \<times> nat" where
  "coco_bbox h w b = rle_to_bbox (rle_fr_string h w (coco_counts h w b))"

text \<open>Line 67: \<open>f"{class_id} " + " ".join(map(str, polygons)) + "\n"\<close>.\<close>

definition label_line :: "int \<Rightarrow> nat \<times> nat \<times> nat \<times> nat \<Rightarrow> string" where
  "label_line cid bb = (case bb of (x, y, bw, bh) \<Rightarrow>
     show_int cid @ '' '' @ show_float_nat x @ '' '' @ show_float_nat y @ '' '' @
     show_float_nat bw @ '' '' @ show_float_nat bh @ ''\<newline>'')"

text \<open>
  The loop of lines 56-67 over \<open>class_mapping.items()\<close> (a dict: pairs in insertion
  order, keys distinct), on the 2-D array of a grey-scale mask; the text is what
  the loop writes to the label file.
\<close>

fun convert_lines :: "(int \<times> int) list \<Rightarrow> u8 grid \<Rightarrow> string" where
  "convert_lines [] g = []"
| "convert_lines ((v, cid) # cm) g =
     (let b = binary_mask g v in
      if mask_sum b = 0 then convert_lines cm g
      else label_line cid (coco_bbox (grid_height g) (grid_width g) b) @ convert_lines cm g)"

section \<open>What a label line says\<close>

text \<open>The pixels of one class value, as \<open>(row, column)\<close> pairs.\<close>

definition class_pixels :: "nat \<Rightarrow> nat \<Rightarrow> u8 grid \<Rightarrow> int \<Rightarrow> (nat \<times> nat) list" where
  "class_pixels h w g v = [(r, c). c \<leftarrow> [0..<w], r \<leftarrow> [0..<h], uint (g ! r ! c) = v]"

section \<open>Lemmas\<close>

lemma binary_mask_rect: "rect h w g \<Longrightarrow> rect h w (binary_mask g v)"
  by (simp add: binary_mask_def rect_grid_map)

lemma binary_mask_binary: "binary_grid (binary_mask g v)"
  by (auto simp add: binary_grid_def binary_mask_def grid_map_def list_all_iff)

lemma binary_mask_nth:
  "rect h w g \<Longrightarrow> r < h \<Longrightarrow> c < w \<Longrightarrow> binary_mask g v ! r ! c = (if uint (g ! r ! c) = v then 1 else 0)"
  by (simp add: binary_mask_def rect_grid_map_nth)

lemma set_class_pixels: "set (class_pixels h w g v) = {(r, c). r < h \<and> c < w \<and> uint (g ! r ! c) = v}"
  by (auto simp add: class_pixels_def)

lemma mask_pixels_binary_mask:
  assumes "rect h w g"
  shows "mask_pixels h w (binary_mask g v) = class_pixels h w g v"
  unfolding mask_pixels_def class_pixels_def
  by (intro arg_cong [where f = concat] map_cong refl) (simp add: binary_mask_nth [OF assms])

lemma mask_sum_zero:
  assumes "rect h w g"
  shows "mask_sum (binary_mask g v) = 0 \<longleftrightarrow> class_pixels h w g v = []"
proof -
  have "mask_sum (binary_mask g v) = 0 \<longleftrightarrow> (\<forall>row\<in>set g. \<forall>p\<in>set row. uint p \<noteq> v)"
    by (simp add: mask_sum_def binary_mask_def grid_map_def)
  also have "\<dots> \<longleftrightarrow> (\<forall>r<h. \<forall>c<w. uint (g ! r ! c) \<noteq> v)"
    using assms by (rule rect_all_cells)
  also have "\<dots> \<longleftrightarrow> class_pixels h w g v = []"
    by (auto simp add: set_class_pixels simp flip: set_empty)
  finally show ?thesis .
qed

lemma bbox_of_rectangle:
  assumes "set P = {y..<y + bh} \<times> {x..<x + bw}" and "0 < bw" and "0 < bh"
  shows "bbox_of P = (x, y, bw, bh)"
proof -
  from assms have "(y, x) \<in> set P" by simp
  then have "P \<noteq> []" by auto
  with assms show ?thesis by (simp add: bbox_of_def Min_Max_atLeastLessThan)
qed

lemma rle_encode_counts_bound:
  "h * w < 2 ^ 32 \<Longrightarrow> \<forall>c\<in>set (rle_cnts (rle_encode h w (fortran_order h w b))). c < 2 ^ 32"
  using member_le_sum_list [of _ "rle_enc 0 0 (fortran_order h w b)"]
  by (fastforce simp add: rle_encode_def sum_list_rle_enc)

lemma coco_bbox_mask:
  assumes "rect h w b" and "binary_grid b" and "h * w < 2 ^ 32"
  shows "coco_bbox h w b = bbox_of (mask_pixels h w b)"
proof -
  have "rle_fr_string h w (coco_counts h w b) = rle_encode h w (fortran_order h w b)"
    using rle_string_roundtrip [OF rle_encode_counts_bound [OF assms(3)]]
    by (simp add: coco_counts_def rle_encode_def)
  then show ?thesis using rle_to_bbox_correct [OF assms(1,2)] by (simp add: coco_bbox_def)
qed

lemma bbox_of_bounds:
  assumes "\<forall>p\<in>set P. fst p < h \<and> snd p < w" and "bbox_of P = (x, y, bw, bh)"
  shows "x + bw \<le> w \<and> y + bh \<le> h"
proof (cases "P = []")
  case True
  with assms(2) show ?thesis by (simp add: bbox_of_def)
next
  case False
  let ?X = "set (map snd P)" and ?Y = "set (map fst P)"
  have ne: "?X \<noteq> {}" "?Y \<noteq> {}" using False by simp_all
  have "Max ?X < w" and "Max ?Y < h" using ne assms(1) by (simp_all add: Max_less_iff)
  moreover have "Min ?X \<le> Max ?X" and "Min ?Y \<le> Max ?Y" using ne by simp_all
  moreover have "x = Min ?X \<and> y = Min ?Y \<and> bw = Max ?X - Min ?X + 1 \<and> bh = Max ?Y - Min ?Y + 1"
    using assms(2) [symmetric] False by (simp add: bbox_of_def Let_def)
  ultimately show ?thesis by linarith
qed

lemma mask_pixels_bounds: "\<forall>p\<in>set (mask_pixels h w g). fst p < h \<and> snd p < w"
  by (auto simp add: mask_pixels_def)

lemma rect_dims: "rect h w g \<Longrightarrow> 0 < h \<Longrightarrow> grid_height g = h \<and> grid_width g = w"
  by (cases g) (auto simp add: grid_height_def grid_width_def rect_def)

lemma convert_lines_Cons:
  assumes "rect h w g" and "h * w < 2 ^ 32"
  shows "convert_lines ((v, cid) # cm) g =
    (if class_pixels h w g v = [] then convert_lines cm g
     else label_line cid (bbox_of (class_pixels h w g v)) @ convert_lines cm g)"
proof (cases "h = 0")
  case True
  with assms(1) show ?thesis
    by (simp add: rect_def binary_mask_def grid_map_def mask_sum_def class_pixels_def)
next
  case False
  then have d: "grid_height g = h" "grid_width g = w" using rect_dims [OF assms(1)] by simp_all
  have "coco_bbox h w (binary_mask g v) = bbox_of (class_pixels h w g v)"
    using coco_bbox_mask [OF binary_mask_rect [OF assms(1)] binary_mask_binary assms(2)]
    by (simp add: mask_pixels_binary_mask [OF assms(1)])
  then show ?thesis by (simp add: d mask_sum_zero [OF assms(1)] Let_def)
qed

text \<open>
  C1: the label file written for a grey-scale mask is, in the order of the class
  mapping, one line per class value that occurs in the mask, holding the class id
  and the exact bounding box \<open>(x, y, width, height)\<close> of the pixels of that
  value, and nothing for a value that does not occur.
\<close>

theorem convert_lines_spec:
  assumes "rect h w g" and "h * w < 2 ^ 32"
  shows "convert_lines cm g =
    concat (map (\<lambda>(v, cid). label_line cid (bbox_of (class_pixels h w g v)))
                (filter (\<lambda>(v, cid). class_pixels h w g v \<noteq> []) cm))"
proof (induction cm)
  case (Cons e cm)
  obtain v cid where e: "e = (v, cid)" by fastforce
  show ?case unfolding e convert_lines_Cons [OF assms] Cons.IH by simp
qed simp

theorem convert_lines_spec_witness:
  "convert_lines [(0, 0), (1, 1), (7, 2)] [[0, 0, 0], [0, 1, 1], [0, 1, 0]] =
   ''0 0.0 0.0 3.0 3.0\<newline>1 1.0 1.0 2.0 2.0\<newline>''"
proof -
  have "rect 3 3 [[0, 0, 0], [0, 1, 1], [0, 1, 0 :: u8]]" by (simp add: rect_def)
  then have "convert_lines [(0, 0), (1, 1), (7, 2)] [[0, 0, 0], [0, 1, 1], [0, 1, 0]] =
    concat (map (\<lambda>(v, cid). label_line cid (bbox_of (class_pixels 3 3 [[0, 0, 0], [0, 1, 1], [0, 1, 0]] v)))
                (filter (\<lambda>(v, cid). class_pixels 3 3 [[0, 0, 0], [0, 1, 1], [0, 1, 0]] v \<noteq> [])
                   [(0, 0), (1, 1), (7, 2)]))"
    by (rule convert_lines_spec) simp
  also have "\<dots> = ''0 0.0 0.0 3.0 3.0\<newline>1 1.0 1.0 2.0 2.0\<newline>''" by code_simp
  finally show ?thesis .
qed

text \<open>
  C16: when the pixels of one class value form exactly the rectangle of columns
  \<open>x..x+bw-1\<close> and rows \<open>y..y+bh-1\<close>, the line written for that class is
  \<open>"cid x.0 y.0 bw.0 bh.0"\<close>: the top-left corner and the size in pixels (COCO
  \<open>[x, y, w, h]\<close>, not a polygon and not YOLO's normalised centre form).
\<close>

theorem convert_lines_rectangle:
  assumes "rect h w g" and "h * w < 2 ^ 32" and "0 < bw" and "0 < bh" and "x + bw \<le> w" and "y + bh \<le> h"
    and "\<forall>r<h. \<forall>c<w. uint (g ! r ! c) = v \<longleftrightarrow> y \<le> r \<and> r < y + bh \<and> x \<le> c \<and> c < x + bw"
  shows "convert_lines [(v, cid)] g = label_line cid (x, y, bw, bh)"
proof -
  have "set (class_pixels h w g v) =
      {(r, c). r < h \<and> c < w \<and> y \<le> r \<and> r < y + bh \<and> x \<le> c \<and> c < x + bw}"
    unfolding set_class_pixels using assms(7) by blast
  also have "\<dots> = {y..<y + bh} \<times> {x..<x + bw}" using assms(5,6) by auto
  finally have S: "set (class_pixels h w g v) = {y..<y + bh} \<times> {x..<x + bw}" .
  then have "(y, x) \<in> set (class_pixels h w g v)" using assms(3,4) by simp
  then have "class_pixels h w g v \<noteq> []" by auto
  moreover have "bbox_of (class_pixels h w g v) = (x, y, bw, bh)"
    using bbox_of_rectangle [OF S assms(3,4)] .
  ultimately show ?thesis by (simp only: convert_lines_Cons [OF assms(1,2)] if_False convert_lines.simps(1) append_Nil2)
qed

theorem convert_lines_rectangle_witness:
  "convert_lines [(255, 3)] [[0, 0, 0, 0], [0, 255, 255, 0], [0, 255, 255, 0]] = ''3 1.0 1.0 2.0 2.0\<newline>''"
proof -
  have "convert_lines [(255, 3)] [[0, 0, 0, 0], [0, 255, 255, 0], [0, 255, 255, 0 :: u8]] = label_line 3 (1, 1, 2, 2)"
  proof (rule convert_lines_rectangle)
    show "\<forall>r<3. \<forall>c<4. uint ([[0, 0, 0, 0], [0, 255, 255, 0], [0, 255, 255, 0 :: u8]] ! r ! c) = 255 \<longleftrightarrow>
            1 \<le> r \<and> r < 1 + 2 \<and> 1 \<le> c \<and> c < 1 + 2"
      by code_simp
  qed (simp_all add: rect_def)
  also have "\<dots> = ''3 1.0 1.0 2.0 2.0\<newline>''" by code_simp
  finally show ?thesis .
qed

text \<open>
  C17: the box \<open>mask_utils.toBbox\<close> returns on line 64 lies inside the image:
  \<open>x + width\<close> is at most the mask's width and \<open>y + height\<close> at most its
  height, for every binary mask of the shape the converter builds.
\<close>

theorem coco_bbox_inside:
  assumes "rect h w b" and "binary_grid b" and "h * w < 2 ^ 32" and "coco_bbox h w b = (x, y, bw, bh)"
  shows "x + bw \<le> w \<and> y + bh \<le> h"
  using bbox_of_bounds [OF mask_pixels_bounds, of h w b x y bw bh] coco_bbox_mask [OF assms(1-3)] assms(4)
  by simp

theorem coco_bbox_inside_witness:
  "coco_bbox 2 3 [[0, 1, 1], [0, 0, 1]] = (1, 0, 2, 2) \<and> 1 + 2 \<le> (3::nat) \<and> 0 + 2 \<le> (2::nat)"
proof -
  have b: "coco_bbox 2 3 [[0, 1, 1], [0, 0, 1]] = (1, 0, 2, 2)" by code_simp
  have "rect 2 3 [[0, 1, 1], [0, 0, 1 :: u8]]" and "binary_grid [[0, 1, 1], [0, 0, 1 :: u8]]"
    by (simp_all add: rect_def binary_grid_def)
  from coco_bbox_inside [OF this _ b] b show ?thesis by simp
qed

end
