(* ===== verification/Mask_Folder.thy ===== *)
theory Mask_Folder
  imports Mask_Labels Store
begin

text \<open>
  The file-level part of \<^verbatim>\<open>src/mask_to_polygon_transformation_script/toPoligon.py\<close>:
  \<open>convert_mask_to_polygons\<close> (lines 45-67) around the class loop of theory
  \<open>Mask_Labels\<close>, \<open>process_all_masks\<close> (lines 7-42) and the usage block
  (lines 70-74), over the world of theory \<open>Store\<close>. Nothing here catches an
  exception: the first one ends the whole run.
\<close>

section \<open>One mask\<close>

text \<open>
  Line 57 on the array \<open>np.array(Image.open(mask_path))\<close>: a 2-D array for a
  grey-scale mask, a 3-D \<open>h \<times> w \<times> 3\<close> array for a colour mask, where
  \<open>mask == pixel_value\<close> compares every channel.
\<close>

datatype mask_arr = Mask2 "u8 grid" | Mask3 "rgb grid"

definition eq_u8 :: "int \<Rightarrow> u8 \<Rightarrow> u8" where
  "eq_u8 v x = (if uint x = v then 1 else 0)"

definition class_mask :: "pil_array \<Rightarrow> int \<Rightarrow> mask_arr" where
  "class_mask a v = (case a of
     Arr2 g \<Rightarrow> Mask2 (binary_mask g v)
   | Arr3 img \<Rightarrow> Mask3 (grid_map (\<lambda>(r, g, b). (eq_u8 v r, eq_u8 v g, eq_u8 v b)) img))"

text \<open>Line 58: \<open>binary_mask.sum()\<close> over every cell and channel.\<close>

definition arr_sum :: "mask_arr \<Rightarrow> nat" where
  "arr_sum b = (case b of
     Mask2 g \<Rightarrow> mask_sum g
   | Mask3 img \<Rightarrow> sum_list (map (\<lambda>r. sum_list (map (\<lambda>(x, y, z). unat x + unat y + unat z) r)) img))"

text \<open>
  \<open>mask.shape[0]\<close> and \<open>mask.shape[1]\<close> of the opened array.
\<close>

definition arr_dims :: "pil_array \<Rightarrow> nat \<times> nat" where
  "arr_dims a = (case a of Arr2 g \<Rightarrow> (grid_height g, grid_width g) | Arr3 img \<Rightarrow> (grid_height img, grid_width img))"

text \<open>
  Line 62, \<open>mask_utils.encode(np.asfortranarray(binary_mask))\<close>. pycocotools
  dispatches on the number of dimensions: a 2-D array gives one RLE dict, a
  3-D array of \<open>c\<close> channels the list of the \<open>c\<close> dicts of its channels.
\<close>

datatype py_rle = RleDict rle | RleList "rle list"

definition mask_encode :: "nat \<Rightarrow> nat \<Rightarrow> mask_arr \<Rightarrow> py_rle" where
  "mask_encode h w b = (case b of
     Mask2 g \<Rightarrow> RleDict (rle_encode h w (fortran_order h w g))
   | Mask3 img \<Rightarrow> RleList (map (\<lambda>ch. rle_encode h w (fortran_order h w (grid_map ch img)))
                               [fst, fst \<circ> snd, snd \<circ> snd]))"

text \<open>
  Line 63, \<open>rle['counts'].decode('utf-8')\<close>: the compressed counts of a dict;
  indexing a list with a string raises \<open>TypeError\<close>.
\<close>

definition rle_counts :: "py_rle \<Rightarrow> py_error + string" where
  "rle_counts r = (case r of RleDict R \<Rightarrow> Inr (rle_to_string (rle_cnts R)) | RleList _ \<Rightarrow> Inl TypeError)"

text \<open>
  The loop of lines 56-67 on the opened array: the exception that ends it, if
  any, and the text written to the label file before it.
\<close>

fun class_loop :: "(int \<times> int) list \<Rightarrow> nat \<Rightarrow> nat \<Rightarrow> pil_array \<Rightarrow> (py_error + unit) \<times> string" where
  "class_loop [] h w a = (Inr (), [])"
| "class_loop ((v, cid) # cm) h w a =
     (let b = class_mask a v in
      if arr_sum b = 0 then class_loop cm h w a
      else (case rle_counts (mask_encode h w b) of
              Inl e \<Rightarrow> (Inl e, [])
            | Inr s \<Rightarrow> (case class_loop cm h w a of
                         (r, t) \<Rightarrow> (r, label_line cid (rle_to_bbox (rle_fr_string h w s)) @ t))))"

text \<open>
  Some value of the mapping occurs in some channel of a colour mask.
\<close>

definition channel_hit :: "int \<Rightarrow> rgb grid \<Rightarrow> bool" where
  "channel_hit v img \<longleftrightarrow> list_ex (list_ex (\<lambda>(r, g, b). uint r = v \<or> uint g = v \<or> uint b = v)) img"

text \<open>
  Lines 54-67: the mask is opened first, then the label file (created empty).
  The writes of the loop go to the file opened at line 55 and nothing else
  touches that file meanwhile, so writing the text the loop produced before it
  ended, then raising its exception, gives the same file.
\<close>

definition convert_mask_to_polygons :: "path \<Rightarrow> path \<Rightarrow> (int \<times> int) list \<Rightarrow> (world, unit) exc" where
  "convert_mask_to_polygons mask_path output_label_path class_mapping =
     bindE (pil_open mask_path) (\<lambda>a.
     bindE (write_file output_label_path (Text [])) (\<lambda>_.
     case class_loop class_mapping (fst (arr_dims a)) (snd (arr_dims a)) a of
       (r, t) \<Rightarrow> bindE (write_file output_label_path (Text t)) (\<lambda>_.
                   case r of Inl e \<Rightarrow> raise e | Inr u \<Rightarrow> ret u)))"

section \<open>The folders\<close>

text \<open>Lines 29 and 36: the names of the label file and of the original image.\<close>

definition label_file_name :: "string \<Rightarrow> string" where
  "label_file_name file_name = replace_all ''_mask.png'' ''.txt'' file_name"

definition image_file_name :: "string \<Rightarrow> string" where
  "image_file_name file_name = replace_all ''_mask.png'' ''.jpg'' file_name"

text \<open>Lines 27-42 for one listed name.\<close>

definition mask_file :: "(int \<times> int) list \<Rightarrow> path \<Rightarrow> path \<Rightarrow> path \<Rightarrow> path \<Rightarrow> string \<Rightarrow> (world, unit) exc" where
  "mask_file class_mapping mask_dir output_dir image_dir output_image_dir file_name =
     (if ends_with file_name ''_mask.png'' then
        (let mask_path = mask_dir @ [file_name];
             label_file = label_file_name file_name;
             output_label_path = output_dir @ [label_file];
             image_file = image_file_name file_name;
             original_image_path = image_dir @ [image_file];
             output_image_path = output_image_dir @ [image_file]
         in bindE (convert_mask_to_polygons mask_path output_label_path class_mapping) (\<lambda>_.
            bindE (gets (\<lambda>w. path_exists w original_image_path)) (\<lambda>ex.
            if ex then bindE (pil_open original_image_path) (pil_save output_image_path) else ret ())))
      else ret ())"

text \<open>Lines 18-42 for one split.\<close>

definition split_step :: "path \<Rightarrow> path \<Rightarrow> (int \<times> int) list \<Rightarrow> string \<Rightarrow> (world, unit) exc" where
  "split_step root_dir output_root class_mapping split =
     (let mask_dir = root_dir @ [split];
          output_dir = output_root @ [split, ''labels''];
          image_dir = root_dir @ [split];
          output_image_dir = output_root @ [split, ''images'']
      in bindE (makedirs output_dir) (\<lambda>_.
         bindE (makedirs output_image_dir) (\<lambda>_.
         bindE (listdir mask_dir) (forE (mask_file class_mapping mask_dir output_dir image_dir output_image_dir)))))"

text \<open>Lines 7-17.\<close>

definition process_all_masks :: "path \<Rightarrow> path \<Rightarrow> (int \<times> int) list \<Rightarrow> (world, unit) exc" where
  "process_all_masks root_dir output_root class_mapping =
     forE (split_step root_dir output_root class_mapping) [''train'', ''test'', ''valid'']"

text \<open>Lines 70-74: the fixed folders and the mapping \<open>{0: 0, 1: 1}\<close>.\<close>

definition class_id_map :: "(int \<times> int) list" where
  "class_id_map = [(0, 0), (1, 1)]"

definition usage_run :: "(world, unit) exc" where
  "usage_run = process_all_masks [''D:'', ''segmentation'', ''mask-semantic''] [''D:'', ''segmentation'', ''polygon_images''] class_id_map"

section \<open>An example dataset\<close>

text \<open>
  One split with a grey-scale mask and its image, and a colour mask; the output
  folders exist.
\<close>

definition ex_masks :: world where
  "ex_masks = \<lparr>fs = [([''r''], Dir), ([''r'', ''train''], Dir),
     ([''r'', ''train'', ''a_mask.png''], File (GrayImage [[0, 1], [1, 1]])),
     ([''r'', ''train'', ''a.jpg''], File (Image [[(1, 2, 3)]])),
     ([''r'', ''train'', ''b_mask.png''], File (Image [[(0, 5, 5)]])),
     ([''r'', ''test''], Dir), ([''r'', ''valid''], Dir),
     ([''o''], Dir), ([''o'', ''train''], Dir), ([''o'', ''train'', ''labels''], Dir), ([''o'', ''train'', ''images''], Dir)],
     out = [], rng = 0\<rparr>"

section \<open>Lemmas\<close>

lemma class_loop_gray:
  "class_loop cm (grid_height g) (grid_width g) (Arr2 g) = (Inr (), convert_lines cm g)"
  by (induction cm) (auto simp add: class_mask_def arr_sum_def mask_encode_def rle_counts_def
      coco_bbox_def coco_counts_def Let_def)

lemma arr_sum_colour: "arr_sum (class_mask (Arr3 img) v) = 0 \<longleftrightarrow> \<not> channel_hit v img"
proof -
  define cell where "cell p = (case p of (r, g, b) \<Rightarrow> (eq_u8 v r, eq_u8 v g, eq_u8 v b))" for p :: rgb
  define hit where "hit = (\<lambda>(r :: u8, g :: u8, b :: u8). uint r = v \<or> uint g = v \<or> uint b = v)"
  have c: "(case cell p of (x, y, z) \<Rightarrow> unat x + unat y + unat z) = 0 \<longleftrightarrow> \<not> hit p" for p
    by (cases p) (simp add: cell_def hit_def eq_u8_def)
  have "arr_sum (class_mask (Arr3 img) v) =
      sum_list (map (\<lambda>r. sum_list (map (\<lambda>p. case cell p of (x, y, z) \<Rightarrow> unat x + unat y + unat z) r)) img)"
    by (simp add: arr_sum_def class_mask_def grid_map_def cell_def o_def)
  moreover have "channel_hit v img \<longleftrightarrow> list_ex (list_ex hit) img"
    by (simp add: channel_hit_def hit_def)
  ultimately show ?thesis by (simp add: sum_list_eq_0_iff list_ex_iff c)
qed

lemma class_loop_colour:
  "list_ex (\<lambda>(v, cid). channel_hit v img) cm \<Longrightarrow> class_loop cm h w (Arr3 img) = (Inl TypeError, [])"
  by (induction cm) (auto simp add: arr_sum_colour [unfolded class_mask_def pil_array.case]
      mask_encode_def rle_counts_def class_mask_def Let_def)

lemma keeps_outside_convert [frame_intros]: "prefix r olp \<Longrightarrow> keeps_outside r (convert_mask_to_polygons mp olp cm)"
  unfolding convert_mask_to_polygons_def by (intro frame_intros)


lemma keeps_outside_mask_file [frame_intros]:
  "prefix r output_dir \<Longrightarrow> prefix r output_image_dir \<Longrightarrow>
   keeps_outside r (mask_file cm mask_dir output_dir image_dir output_image_dir name)"
  unfolding mask_file_def Let_def by (intro frame_intros; simp add: prefix_append)

lemma keeps_outside_process_all_masks [frame_intros]:
  "keeps_outside output_root (process_all_masks root_dir output_root cm)"
  unfolding process_all_masks_def split_step_def Let_def by (intro frame_intros; simp)

text \<open>
  C25: the conversion never changes or removes an entry outside the output root:
  the masks and the original images stay as they were.
\<close>

theorem process_all_masks_keeps_inputs:
  assumes "\<not> prefix output_root q" and "node_at w q = Some n"
  shows "node_at (snd (process_all_masks root_dir output_root cm w)) q = Some n"
  using keeps_outside_process_all_masks [of output_root root_dir cm] assms by (simp add: keeps_outside_def)

lemma convert_gray:
  assumes "node_at w mp = Some (File (GrayImage g))" and "open_error w olp = None"
  shows "convert_mask_to_polygons mp olp cm w =
    (Inr (), put_node olp (File (Text (convert_lines cm g))) (put_node olp (File (Text [])) w))"
  using assms by (simp add: convert_mask_to_polygons_def pil_open_def arr_dims_def class_loop_gray
      write_file_ok open_error_put_file)

text \<open>
  C4: for a listed grey-scale mask \<open>name_mask.png\<close>, the label file
  \<open>name.txt\<close> in the output label folder holds the text of the class loop on
  the mask, whatever happens afterwards to the copy of the original image.
\<close>

theorem mask_file_writes_labels:
  assumes "ends_with name ''_mask.png''"
    and "node_at w (mask_dir @ [name]) = Some (File (GrayImage g))"
    and "open_error w (output_dir @ [label_file_name name]) = None"
    and "output_dir \<noteq> output_image_dir"
  shows "node_at (snd (mask_file cm mask_dir output_dir image_dir output_image_dir name w))
           (output_dir @ [label_file_name name]) = Some (File (Text (convert_lines cm g)))"
proof -
  let ?olp = "output_dir @ [label_file_name name]"
  let ?oip = "output_image_dir @ [image_file_name name]"
  let ?w = "put_node ?olp (File (Text (convert_lines cm g))) (put_node ?olp (File (Text [])) w)"
  have ne: "?olp \<noteq> ?oip" using assms(4) by simp
  have "node_at (snd (bindE (pil_open p) (pil_save ?oip) ?w)) ?olp = Some (File (Text (convert_lines cm g)))" for p
  proof -
    obtain r where r: "pil_open p ?w = (r, ?w)" using pil_open_state by (metis prod.collapse)
    show ?thesis using ne by (cases r) (simp_all add: r bindE_def pil_save_def write_file_other)
  qed
  then show ?thesis
    using assms(1) convert_gray [OF assms(2,3)] by (simp add: mask_file_def Let_def)
qed

text \<open>
  C18: for a mask named \<open>stem_mask.png\<close> in which \<open>_mask.png\<close> occurs only
  as the suffix, the label file is \<open>stem.txt\<close> and the copied image is
  \<open>stem.jpg\<close> (lines 29 and 36 replace every occurrence, not only the suffix).
\<close>

theorem mask_file_names:
  assumes "\<not> sublist ''_mask.png'' (stem @ ''_mask.pn'')"
  shows "label_file_name (stem @ ''_mask.png'') = stem @ ''.txt'' \<and>
         image_file_name (stem @ ''_mask.png'') = stem @ ''.jpg''"
proof -
  have "\<not> sublist ''_mask.png'' (stem @ butlast ''_mask.png'')" using assms by simp
  then show ?thesis by (simp add: label_file_name_def image_file_name_def replace_all_only_suffix)
qed

text \<open>
  C19: lines 35-42 act on the original image only after the label file is
  complete. When \<open>stem.jpg\<close> exists beside the grey-scale mask
  \<open>stem_mask.png\<close>, the run opens it with PIL, hands the opened RGB array to
  \<open>Image.save\<close> at \<open>stem.jpg\<close> in the output image folder, and ends with
  whatever that save returns. What \<open>Image.save\<close> encodes is left to
  \<open>pil_save\<close>; the statement does not depend on it.
\<close>

theorem mask_file_copies_image:
  assumes "ends_with name ''_mask.png''"
    and "node_at w (mask_dir @ [name]) = Some (File (GrayImage g))"
    and "open_error w (output_dir @ [label_file_name name]) = None"
    and "node_at w (image_dir @ [image_file_name name]) = Some (File (Image img))"
    and "output_dir \<noteq> image_dir"
  shows "mask_file cm mask_dir output_dir image_dir output_image_dir name w =
    pil_save (output_image_dir @ [image_file_name name]) (Arr3 (cvt_color img))
      (put_node (output_dir @ [label_file_name name]) (File (Text (convert_lines cm g)))
        (put_node (output_dir @ [label_file_name name]) (File (Text [])) w))"
proof -
  let ?olp = "output_dir @ [label_file_name name]" and ?ip = "image_dir @ [image_file_name name]"
  let ?w = "put_node ?olp (File (Text (convert_lines cm g))) (put_node ?olp (File (Text [])) w)"
  have i: "node_at ?w ?ip = Some (File (Image img))" using assms(4,5) by simp
  then show ?thesis
    using assms(1) convert_gray [OF assms(2,3)]
    by (simp add: mask_file_def Let_def path_exists_def pil_open_def bindE_def)
qed

text \<open>
  C15: for a colour mask, \<open>mask_utils.encode\<close> of the 3-D binary mask of the
  first class value present in some channel returns a list of per-channel
  RLEs, and \<open>rle['counts']\<close> on that list raises \<open>TypeError\<close>. The converter
  raises it with the label file created empty; nothing catches it, so the
  whole conversion stops there.
\<close>

theorem convert_colour_mask_raises:
  assumes "node_at w mp = Some (File (Image img))" and "open_error w olp = None"
    and "list_ex (\<lambda>(v, cid). channel_hit v (cvt_color img)) cm"
  shows "convert_mask_to_polygons mp olp cm w = (Inl TypeError, put_node olp (File (Text [])) w)"
proof -
  have "open_error (put_node olp (File (Text [])) w) olp = None" by (rule open_error_put_file [OF assms(2)])
  with assms show ?thesis
    by (simp add: convert_mask_to_polygons_def pil_open_def arr_dims_def class_loop_colour write_file_ok
        put_node_put_node)
qed

theorem process_all_masks_keeps_inputs_witness:
  "node_at (snd (process_all_masks [''r''] [''o''] class_id_map ex_masks)) [''r'', ''train'', ''a_mask.png''] =
     Some (File (GrayImage [[0, 1], [1, 1]]))"
  by (rule process_all_masks_keeps_inputs) (simp_all add: ex_masks_def node_at_def)

theorem mask_file_writes_labels_witness:
  "node_at (snd (mask_file class_id_map [''r'', ''train''] [''o'', ''train'', ''labels''] [''r'', ''train''] [''o'', ''train'', ''images'']
      ''a_mask.png'' ex_masks)) [''o'', ''train'', ''labels'', ''a.txt''] =
   Some (File (Text ''0 0.0 0.0 1.0 1.0\<newline>1 0.0 0.0 2.0 2.0\<newline>''))"
proof -
  have h1: "ends_with ''a_mask.png'' ''_mask.png''" by (simp add: ends_with_def)
  have h2: "node_at ex_masks ([''r'', ''train''] @ [''a_mask.png'']) = Some (File (GrayImage [[0, 1], [1, 1]]))"
    by (simp add: ex_masks_def node_at_def)
  have r: "label_file_name ''a_mask.png'' = ''a.txt''" by (simp add: label_file_name_def)
  have h3: "open_error ex_masks ([''o'', ''train'', ''labels''] @ [label_file_name ''a_mask.png'']) = None"
    by (simp add: r ex_masks_def node_at_def open_error_def)
  have h4: "[''o'', ''train'', ''labels''] \<noteq> [''o'', ''train'', ''images'']" by simp
  have "convert_lines class_id_map [[0, 1], [1, 1]] = ''0 0.0 0.0 1.0 1.0\<newline>1 0.0 0.0 2.0 2.0\<newline>''"
    unfolding class_id_map_def by code_simp
  with mask_file_writes_labels [OF h1 h2 h3 h4, of class_id_map "[''r'', ''train'']"] r show ?thesis by simp
qed

theorem mask_file_names_witness:
  "label_file_name (''img7'' @ ''_mask.png'') = ''img7'' @ ''.txt'' \<and>
   image_file_name (''img7'' @ ''_mask.png'') = ''img7'' @ ''.jpg''"
proof (rule mask_file_names)
  show "\<not> sublist ''_mask.png'' (''img7'' @ ''_mask.pn'')" by code_simp
qed

theorem mask_file_copies_image_witness:
  "mask_file class_id_map [''r'', ''train''] [''o'', ''train'', ''labels''] [''r'', ''train''] [''o'', ''train'', ''images'']
      ''a_mask.png'' ex_masks =
   (Inr (), put_node [''o'', ''train'', ''images'', ''a.jpg''] (File (Image [[(1, 2, 3)]]))
      (put_node [''o'', ''train'', ''labels'', ''a.txt''] (File (Text ''0 0.0 0.0 1.0 1.0\<newline>1 0.0 0.0 2.0 2.0\<newline>''))
        (put_node [''o'', ''train'', ''labels'', ''a.txt''] (File (Text [])) ex_masks)))"
proof -
  have l: "label_file_name ''a_mask.png'' = ''a.txt''" by (simp add: label_file_name_def)
  have i: "image_file_name ''a_mask.png'' = ''a.jpg''" by (simp add: image_file_name_def)
  have h1: "ends_with ''a_mask.png'' ''_mask.png''" by (simp add: ends_with_def)
  have h2: "node_at ex_masks ([''r'', ''train''] @ [''a_mask.png'']) = Some (File (GrayImage [[0, 1], [1, 1]]))"
    by (simp add: ex_masks_def node_at_def)
  have h3: "open_error ex_masks ([''o'', ''train'', ''labels''] @ [label_file_name ''a_mask.png'']) = None"
    by (simp add: l ex_masks_def node_at_def open_error_def)
  have h4: "node_at ex_masks ([''r'', ''train''] @ [image_file_name ''a_mask.png'']) = Some (File (Image [[(1, 2, 3)]]))"
    by (simp add: i ex_masks_def node_at_def)
  have h5: "[''o'', ''train'', ''labels''] \<noteq> [''r'', ''train'']" by simp
  have c: "convert_lines class_id_map [[0, 1], [1, 1]] = ''0 0.0 0.0 1.0 1.0\<newline>1 0.0 0.0 2.0 2.0\<newline>''"
    unfolding class_id_map_def by code_simp
  have s: "pil_save [''o'', ''train'', ''images'', ''a.jpg''] (Arr3 (cvt_color [[(1, 2, 3)]]))
      (put_node [''o'', ''train'', ''labels'', ''a.txt''] (File (Text ''0 0.0 0.0 1.0 1.0\<newline>1 0.0 0.0 2.0 2.0\<newline>''))
        (put_node [''o'', ''train'', ''labels'', ''a.txt''] (File (Text [])) ex_masks)) =
   (Inr (), put_node [''o'', ''train'', ''images'', ''a.jpg''] (File (Image [[(1, 2, 3)]]))
      (put_node [''o'', ''train'', ''labels'', ''a.txt''] (File (Text ''0 0.0 0.0 1.0 1.0\<newline>1 0.0 0.0 2.0 2.0\<newline>''))
        (put_node [''o'', ''train'', ''labels'', ''a.txt''] (File (Text [])) ex_masks)))"
    by (simp add: pil_save_def write_file_def open_error_def ex_masks_def put_node_def node_at_def)
  from mask_file_copies_image [OF h1 h2 h3 h4 h5, of class_id_map "[''o'', ''train'', ''images'']"] l i c s
  show ?thesis by simp
qed

theorem convert_colour_mask_raises_witness:
  "convert_mask_to_polygons [''r'', ''train'', ''b_mask.png''] [''o'', ''train'', ''labels'', ''b.txt''] class_id_map ex_masks =
   (Inl TypeError, put_node [''o'', ''train'', ''labels'', ''b.txt''] (File (Text [])) ex_masks)"
proof (rule convert_colour_mask_raises)
  show "list_ex (\<lambda>(v, cid). channel_hit v (cvt_color [[(0, 5, 5)]])) class_id_map"
    unfolding class_id_map_def by code_simp
qed (simp_all add: ex_masks_def node_at_def open_error_def)

end
