(* ===== verification/Spec2Isabelle.thy ===== *)
theory Spec2Isabelle
  imports Sam_Folder Mask_Folder
begin

text \<open>
  \<^bold>\<open>A verification model of segment-anything-model-SAM-with-bounding-boxes.\<close>

  The repository has two Python scripts.
  \<^verbatim>\<open>src/sam_segmentation_with_bounding_boxes.py\<close> walks a Pascal VOC dataset
  (\<open>JPEGImages/\<close>, \<open>Annotations/\<close>). For every image with an annotation it reads
  the bounding boxes (\<open>read_labels_from_xml\<close>), asks the SAM predictor for a
  mask per box, blends a random colour into the masked pixels
  (\<open>segment_with_boxes\<close>) and writes the overlay to the output folder
  (\<open>process_folder\<close>, main block).
  \<^verbatim>\<open>src/mask_to_polygon_transformation_script/toPoligon.py\<close> walks the
  \<open>train/test/valid\<close> splits of a folder of \<open>*_mask.png\<close> label masks. For every
  class value of the mapping present in a mask it writes one line
  \<open>class_id x y w h\<close> of the bounding box computed by pycocotools
  (\<open>convert_mask_to_polygons\<close>), and it copies the original image
  (\<open>process_all_masks\<close>).

  \<^bold>\<open>Theories.\<close>
  \<^item> \<open>Prelude\<close>: images as row lists (\<open>'a grid\<close>, \<open>u8 = 8 word\<close>, \<open>rgb\<close>), Python
    floats with IEEE comparison (\<open>pyfloat\<close>, \<open>flt_lt\<close>), boxes, exceptions
    (\<open>py_error\<close>) and printed messages (\<open>msg\<close>). It also holds the
    exception-and-state combinators \<open>ret\<close>, \<open>raise\<close>, \<open>bindE\<close>, \<open>catchE\<close>,
    \<open>gets\<close>, \<open>modify\<close> and \<open>forE\<close> (a \<open>for\<close> loop that the first exception ends),
    and the OpenCV channel swap \<open>cvt_color\<close>.
  \<^item> \<open>Overlay\<close>: \<open>load_image\<close> and the box loop of \<open>segment_with_boxes\<close>
    (lines 45-79). The state is the record \<open>seg_state\<close>: overlay, colours drawn
    and messages. There is one definition per step: \<open>box_invalid\<close> (line 57),
    \<open>seg_box\<close> (one iteration with its \<open>try\<close>), \<open>seg_loop\<close> and
    \<open>segment_core\<close>. The blend is \<open>blend_ch\<close> (line 76), float arithmetic
    truncated into \<open>uint8\<close>. The predictor and the random colour stream are
    parameters.
  \<^item> \<open>Rle\<close>: the pycocotools routines the converter calls, modelled from the
    semantics of its C code (not part of this repository):
    \<^item> \<open>rleEncode\<close> (\<open>rle_enc\<close>) and \<open>rleDecode\<close> (\<open>rle_dec\<close>);
    \<^item> \<open>rleToBbox\<close> (\<open>bbox_loop\<close>, the C loop as it is, with its
      column-wrap case);
    \<^item> the compressed string form (\<open>rle_to_string\<close>, \<open>fr_chars\<close>/\<open>rle_fr_string\<close>).
  \<^item> \<open>Mask_Labels\<close>: the class loop of \<open>convert_mask_to_polygons\<close> on a decoded
    grey-scale mask (\<open>binary_mask\<close>, \<open>mask_sum\<close>, \<open>coco_counts\<close>,
    \<open>coco_bbox\<close>, \<open>label_line\<close>, \<open>convert_lines\<close>), and Python's \<open>str\<close> of
    ints and integral floats.
  \<^item> \<open>Store\<close>: the world both scripts run in. It holds a store of directories and
    files (association list from paths to nodes), what was printed, and the
    position in the random stream. It models the library calls \<open>os.makedirs\<close>,
    \<open>os.listdir\<close>, \<open>os.path.exists\<close>, \<open>cv2.imread/imwrite\<close>,
    \<open>Image.open/save\<close>, \<open>open(p, 'w')\<close> and \<open>ET.parse\<close>, and \<open>str.endswith\<close>,
    \<open>str.replace\<close> and \<open>os.path.splitext\<close>. Each call is a definition of the
    world-passing exception type, with the exceptions the call raises.
  \<^item> \<open>Xml_Labels\<close>: \<open>read_labels_from_xml\<close> (lines 25-42), with \<open>Element.find\<close>,
    \<open>findall\<close> and Python's \<open>float()\<close> on strings (\<open>py_float\<close>).
  \<^item> \<open>Sam_Folder\<close>: \<open>segment_with_boxes\<close> as a whole, \<open>process_file\<close> (the
    loop body of lines 93-107), \<open>process_folder\<close>, \<open>sam_main\<close> and
    \<open>script_main\<close>.
  \<^item> \<open>Mask_Folder\<close>: \<open>convert_mask_to_polygons\<close> at file level. Its class
    loop \<open>class_loop\<close> runs on the opened 2-D or 3-D array (\<open>class_mask\<close>,
    \<open>arr_sum\<close>); \<open>mask_encode\<close> follows pycocotools' dispatch on the number of
    dimensions (one RLE dict, or a list of per-channel dicts, \<open>py_rle\<close>) and
    \<open>rle_counts\<close> is the lookup \<open>rle['counts']\<close>, which raises \<open>TypeError\<close> on a
    list. On a grey-scale mask the loop is \<open>convert_lines\<close>. The theory also
    holds the output names
    \<open>label_file_name\<close> and \<open>image_file_name\<close> (lines 29, 36), \<open>mask_file\<close>, \<open>split_step\<close>,
    \<open>process_all_masks\<close> and \<open>usage_run\<close>.
  \<^item> This theory: the consumer's view of a label line (\<open>py_split\<close>, Python's
    \<open>str.split()\<close>) and the round trip of the line through it.

  \<^bold>\<open>What is proved.\<close>
  \<^item> \<open>Overlay\<close>: the outcome of each branch of one box (outside, empty mask,
    blend, model error); the overlay keeps the image's shape; a model error on
    one box changes nothing else; one colour is drawn per blended box. The
    \<open>uint8\<close> assignment refines an exact blend over natural numbers
    (\<open>apply_mask_refines\<close>: \<open>grid_map px_nat (apply_mask g m c) =
    apply_mask_spec (grid_map px_nat g) m (px_nat c)\<close>).
  \<^item> \<open>Rle\<close>: \<open>rleToBbox\<close> after \<open>rleEncode\<close> of a binary mask in Fortran order
    equals the least box around its 1-pixels. This is an equivalence with a
    reference definition (\<open>bbox_of (mask_pixels ...)\<close>), proved through a
    run-level loop and a fold over the 1-pixels. The string codec round-trips
    for counts below \<open>2^32\<close>, and its characters are ASCII, so the
    \<open>decode('utf-8')\<close> of line 63 is the identity on them.
  \<^item> \<open>Mask_Labels\<close>: the text the converter writes for a grey-scale mask is one
    exact bounding-box line per class value present, in mapping order
    (\<open>convert_lines_spec\<close>), and every box \<open>toBbox\<close> returns lies inside
    the mask (\<open>coco_bbox_inside\<close>).
  \<^item> \<open>Store\<close>: every call except the writes keeps the entries outside any
    directory (\<open>keeps_outside\<close>). The collection \<open>frame_intros\<close> makes these
    facts compose through \<open>bindE\<close>, \<open>catchE\<close>, \<open>forE\<close> and the case
    distinctions of the walkers.
  \<^item> The walkers: neither script changes an entry outside its output folder. The file written for an image is the
    overlay of the boxes the reader returned. The label file of a grey-scale mask
    holds the class-loop text. Per-image errors never stop the SAM walker, whose
    main block never raises. A colour mask stops the converter with the
    \<open>TypeError\<close> of \<open>rle['counts']\<close> on the list \<open>encode\<close> returns for a 3-D
    array, leaving an empty label file. The reader returns the boxes
    read before its first error. The image \<open>segment_with_boxes\<close> writes has the
    shape of the image it read. A mask \<open>stem_mask.png\<close> gets the label
    file \<open>stem.txt\<close> and the image \<open>stem.jpg\<close> when \<open>_mask.png\<close> occurs only
    as its suffix (\<open>str.replace\<close> rewrites every occurrence); after the
    label file, the original \<open>stem.jpg\<close> is opened with PIL and saved into the
    output image folder. An image without annotation is skipped with its
    message; an unreadable image is reported by the per-file handler with the
    store and the random stream untouched. After an image, the random stream
    stands where its box loop stopped, so the next image continues it. When
    no box changes the overlay, the file written is the image read: the
    conversions of lines 21 and 82 cancel.

  \<^bold>\<open>Bounds.\<close> There is no fuel: every loop is structural recursion over a list,
  or a \<open>function\<close> with a measure (\<open>enc_num\<close>, \<open>replace_all\<close>), so every
  definition is total. The RLE counts are C \<open>uint\<close> values: the string round
  trip and the bounding-box theorem assume \<open>h * w < 2^32\<close>, which holds for
  any image a PNG can hold in memory. The blend is exact in rationals, as
  \<open>float64\<close> is on halves of integers below 256.

  \<^bold>\<open>Not modelled.\<close>
  \<^item> The SAM network and \<open>set_image\<close>: the predictor is a parameter.
  \<^item> \<open>np.random\<close>: an arbitrary colour stream indexed by the number of draws.
    \<open>randint(0, 255)\<close> never draws 255, which no property needs.
  \<^item> The bytes of files: a file is the picture, tree or text its decoder
    returns. JPEG's loss on \<open>imwrite\<close> and \<open>save\<close> is not modelled (no
    property about the mask script's copy depends on it), and images in PIL
    modes other than RGB and L are not modelled.
  \<^item> The counts pycocotools computes for each channel of a 3-D mask are
    modelled (\<open>mask_encode\<close>), but the loop never reads them: the lookup
    \<open>rle['counts']\<close> on the list raises first.
  \<^item> The rounding of decimal strings to \<open>float64\<close>: \<open>py_float\<close> is exact. This
    matters only for strings of more than 17 significant digits or outside
    the double range (\<open>"-1e-400"\<close> reads as \<open>-0.0\<close>). Unicode digits and
    white space are also left out.
  \<^item> The text of printed messages: each \<open>print\<close> is a \<open>msg\<close> constructor.
  \<^item> The parsing of Windows path strings: the fixed folders of the main blocks
    are written as lists of components.
\<close>

section \<open>Reading a label line back\<close>

text \<open>\<open>str.split()\<close>: the maximal runs of non-white-space characters.\<close>

fun words_acc :: "string \<Rightarrow> string \<Rightarrow> string list" where
  "words_acc cur [] = (if cur = [] then [] else [rev cur])"
| "words_acc cur (c # cs) =
     (if is_space c then (if cur = [] then words_acc [] cs else rev cur # words_acc [] cs)
      else words_acc (c # cur) cs)"

definition py_split :: "string \<Rightarrow> string list" where
  "py_split s = words_acc [] s"

section \<open>Lemmas\<close>

declare show_nat.simps [simp del]

lemma words_acc_token:
  "list_all (\<lambda>c. \<not> is_space c) t \<Longrightarrow> is_space c \<Longrightarrow> cur @ t \<noteq> [] \<Longrightarrow>
   words_acc (rev cur) (t @ c # r) = (cur @ t) # words_acc [] r"
proof (induction t arbitrary: cur)
  case Nil
  then show ?case by simp
next
  case (Cons a t)
  have "words_acc (rev (cur @ [a])) (t @ c # r) = ((cur @ [a]) @ t) # words_acc [] r"
    using Cons.prems by (intro Cons.IH) simp_all
  with Cons.prems show ?case by simp
qed

lemma show_nat_digits: "show_nat n \<noteq> [] \<and> list_all is_digit (show_nat n) \<and> digits_val (show_nat n) = n"
proof (induction n rule: show_nat.induct)
  case (1 n)
  note eq = show_nat.simps [of n]
  have d: "is_digit (char_of (48 + k))" and v: "of_char (char_of (48 + k) :: char) - 48 = k" if "k < 10" for k :: nat
    using that by (simp_all add: is_digit_def)
  show ?case
  proof (cases "n < 10")
    case True
    then show ?thesis using d v unfolding eq by (simp add: digits_val_def)
  next
    case False
    with "1.IH" have ih: "show_nat (n div 10) \<noteq> [] \<and> list_all is_digit (show_nat (n div 10)) \<and> digits_val (show_nat (n div 10)) = n div 10"
      by simp
    have "n mod 10 < 10" by simp
    with False ih d [OF this] v [OF this] show ?thesis
      unfolding eq by (simp add: digits_val_def)
  qed
qed


lemma parse_decimal_digits:
  "ds \<noteq> [] \<Longrightarrow> list_all is_digit ds \<Longrightarrow> parse_decimal ds = Some (of_nat (digits_val ds))"
  by (simp add: parse_decimal_def span_digits_all digitpart_ok_digits digits_val_def scale10_def)

lemma py_float_show_int: "py_float (show_int i) = Some (Fin (of_int i))"
proof -
  obtain ds where ds: "ds = show_nat (nat \<bar>i\<bar>)" by simp
  have ne: "ds \<noteq> []" and dg: "list_all is_digit ds" and v: "digits_val ds = nat \<bar>i\<bar>"
    using show_nat_digits [of "nat \<bar>i\<bar>"] ds by simp_all
  from ne dg obtain c cs where c: "ds = c # cs" "is_digit c" by (cases ds) auto
  have ns: "list_all (\<lambda>c. \<not> is_space c) ds" using dg by (simp add: list_all_iff)
  have w: "map lower ds \<noteq> ''inf'' \<and> map lower ds \<noteq> ''infinity'' \<and> map lower ds \<noteq> ''nan''"
    using digits_not_word [OF ne dg, of "[]"] by simp
  show ?thesis
  proof (cases "i < 0")
    case True
    then have "show_int i = CHR ''-'' # ds" by (simp add: show_int_def ds)
    moreover have "strip (CHR ''-'' # ds) = CHR ''-'' # ds" using ns by (simp add: strip_no_space is_space_def)
    ultimately show ?thesis using True w v parse_decimal_digits [OF ne dg]
      by (simp add: py_float_def sign_of_def)
  next
    case False
    then have "show_int i = ds" by (simp add: show_int_def ds)
    moreover have "sign_of ds = (False, ds)" using c by (simp add: sign_of_def)
    ultimately show ?thesis using False w v parse_decimal_digits [OF ne dg]
      by (simp add: py_float_def strip_no_space [OF ns])
  qed
qed

lemma py_float_show_float_nat: "py_float (show_float_nat n) = Some (Fin (of_nat n))"
  using show_nat_digits [of n] py_float_point0 [of "show_nat n"] by (simp add: show_float_nat_def)

lemma show_tokens_no_space:
  "list_all (\<lambda>c. \<not> is_space c) (show_int i) \<and> show_int i \<noteq> []"
  "list_all (\<lambda>c. \<not> is_space c) (show_float_nat n) \<and> show_float_nat n \<noteq> []"
proof -
  have "\<not> is_space CHR ''-''" "\<not> is_space CHR ''.''" "\<not> is_space CHR ''0''" by (simp_all add: is_space_def)
  then show "list_all (\<lambda>c. \<not> is_space c) (show_int i) \<and> show_int i \<noteq> []"
    and "list_all (\<lambda>c. \<not> is_space c) (show_float_nat n) \<and> show_float_nat n \<noteq> []"
    using show_nat_digits [of "nat (- i)"] show_nat_digits [of "nat i"] show_nat_digits [of n]
    by (auto simp add: show_int_def show_float_nat_def list_all_iff)
qed

lemma py_split_label_line:
  "py_split (label_line cid (x, y, bw, bh)) =
   [show_int cid, show_float_nat x, show_float_nat y, show_float_nat bw, show_float_nat bh]"
proof -
  have sp: "is_space CHR '' ''" "is_space (CHR ''\<newline>'')" by (simp_all add: is_space_def)
  note tok = words_acc_token [of _ _ "[]", simplified]
  show ?thesis
    unfolding py_split_def label_line_def prod.case append_assoc
    using show_tokens_no_space(1) [of cid] show_tokens_no_space(2) [of x] show_tokens_no_space(2) [of y]
      show_tokens_no_space(2) [of bw] show_tokens_no_space(2) [of bh]
    by (simp add: tok sp)
qed

text \<open>
  C20: a label line read back the way a consumer of the label files reads it
  (split on white space, each field through \<open>float()\<close>) gives the class id
  and the four numbers of the box.
\<close>

theorem label_line_roundtrip:
  "map py_float (py_split (label_line cid (x, y, bw, bh))) =
   map (\<lambda>q. Some (Fin q)) [of_int cid, of_nat x, of_nat y, of_nat bw, of_nat bh]"
  by (simp add: py_split_label_line py_float_show_int py_float_show_float_nat)

end
